(* ===== verification/Prelude.thy ===== *)
theory Prelude
  imports Main "HOL-Library.Sublist"
begin

text \<open>
  Shared vocabulary of the development: the Python errors the program can raise
  (the \<open>ValueError\<close>s of \<open>int()\<close> and \<open>str()\<close>), results as \<open>py_error + 'a\<close>, Python's
  \<open>list(map(f, xs))\<close> over a fallible \<open>f\<close> (\<open>mapM_err\<close>, which stops at the
  first raise), and the predicate \<open>adj_all\<close> "every adjacent pair satisfies P",
  in terms of which the safety rule is specified. The generic lemmas on these are
  declared into the collection \<open>model_simps\<close> or \<open>[simp]\<close> so that the
  component theories can use them by \<open>simp add: model_simps\<close>.
\<close>

named_theorems model_simps "characteristic equations of the model shared by the component proofs"

text \<open>Python strings are sequences of code points; the model's \<open>char\<close> stands for one
  code point in U+0000..U+00FF.\<close>

type_synonym py_str = string

type_synonym report = "int list"

text \<open>The exceptions the program can raise on decoded input. Both are Python's
  \<open>ValueError\<close>: \<open>ValueError s\<close> is the "invalid literal for int()" error of
  \<open>int()\<close>, naming the text \<open>s\<close>; \<open>DigitLimitError\<close> is the error "Exceeds
  the limit (4300 digits) for integer string conversion" that \<open>int()\<close> and
  \<open>str()\<close> raise since CPython 3.11 on integers of more decimal digits than
  \<open>sys.get_int_max_str_digits()\<close>.\<close>

datatype py_error = ValueError py_str | DigitLimitError

type_synonym 'a py_result = "py_error + 'a"

text \<open>\<open>list(map(f, xs))\<close>: the elements are converted left to right and the first
  exception propagates out; no partial list is returned.\<close>

fun mapM_err :: "('a \<Rightarrow> 'e + 'b) \<Rightarrow> 'a list \<Rightarrow> 'e + 'b list" where
  "mapM_err f [] = Inr []"
| "mapM_err f (x # xs) =
     (case f x of
        Inl e \<Rightarrow> Inl e
      | Inr y \<Rightarrow> (case mapM_err f xs of Inl e \<Rightarrow> Inl e | Inr ys \<Rightarrow> Inr (y # ys)))"

text \<open>Every adjacent pair \<open>(xs!i, xs!(i+1))\<close> of a list satisfies \<open>P\<close>.\<close>

fun adj_all :: "('a \<Rightarrow> 'a \<Rightarrow> bool) \<Rightarrow> 'a list \<Rightarrow> bool" where
  "adj_all P (a # b # xs) = (P a b \<and> adj_all P (b # xs))"
| "adj_all P _ = True"

subsection \<open>Error-propagating map\<close>

lemma mapM_err_Inr_iff [model_simps]:
  "mapM_err f xs = Inr ys \<longleftrightarrow> list_all2 (\<lambda>x y. f x = Inr y) xs ys"
proof (induction xs arbitrary: ys)
  case Nil
  then show ?case by auto
next
  case (Cons x xs)
  show ?case
  proof (cases ys)
    case Nil
    then show ?thesis by (auto split: sum.splits)
  next
    case (Cons y ys')
    have "mapM_err f (x # xs) = Inr (y # ys') \<longleftrightarrow> f x = Inr y \<and> mapM_err f xs = Inr ys'"
      by (auto split: sum.splits)
    with Cons Cons.IH show ?thesis by simp
  qed
qed

lemma mapM_err_Inl_iff [model_simps]:
  "(\<exists>e. mapM_err f xs = Inl e) \<longleftrightarrow> (\<exists>x \<in> set xs. \<exists>e. f x = Inl e)"
  by (induction xs) (auto split: sum.splits)

lemma mapM_err_Inl:
  "mapM_err f xs = Inl e \<Longrightarrow> \<exists>x \<in> set xs. f x = Inl e"
  by (induction xs) (auto split: sum.splits)

lemma mapM_err_map:
  "(\<And>x. x \<in> set xs \<Longrightarrow> f x = Inr (g x)) \<Longrightarrow> mapM_err f xs = Inr (map g xs)"
  by (induction xs) auto

lemma mapM_err_length:
  "mapM_err f xs = Inr ys \<Longrightarrow> length ys = length xs"
  by (simp add: mapM_err_Inr_iff list_all2_lengthD)

lemma mapM_err_append [model_simps]:
  "mapM_err f (xs @ ys) =
     (case mapM_err f xs of
        Inl e \<Rightarrow> Inl e
      | Inr as \<Rightarrow> (case mapM_err f ys of Inl e \<Rightarrow> Inl e | Inr bs \<Rightarrow> Inr (as @ bs)))"
  by (induction xs) (auto split: sum.splits)

subsection \<open>Adjacent pairs\<close>

lemma adj_all_nth:
  "adj_all P xs \<longleftrightarrow> (\<forall>i. Suc i < length xs \<longrightarrow> P (xs ! i) (xs ! Suc i))"
proof (induction P xs rule: adj_all.induct)
  case (1 P a b xs)
  have "(\<forall>i. Suc i < length (a # b # xs) \<longrightarrow> P ((a # b # xs) ! i) ((a # b # xs) ! Suc i))
        \<longleftrightarrow> P a b \<and> (\<forall>i. Suc i < length (b # xs) \<longrightarrow> P ((b # xs) ! i) ((b # xs) ! Suc i))"
    (is "?L \<longleftrightarrow> ?R")
  proof
    assume ?L
    then show ?R by (auto dest: spec [of _ "Suc _"] spec [of _ 0])
  next
    assume r: ?R
    show ?L
    proof (intro allI impI)
      fix i
      assume "Suc i < length (a # b # xs)"
      with r show "P ((a # b # xs) ! i) ((a # b # xs) ! Suc i)"
        by (cases i) auto
    qed
  qed
  with "1.IH" show ?case by simp
qed auto

lemma adj_all_append [model_simps]:
  "adj_all P (xs @ y # ys) \<longleftrightarrow> adj_all P (xs @ [y]) \<and> adj_all P (y # ys)"
  by (induction P xs rule: adj_all.induct) (auto simp: Cons_eq_append_conv)

lemma adj_all_Cons_Cons [model_simps]:
  "adj_all P (x # y # ys) \<longleftrightarrow> P x y \<and> adj_all P (y # ys)"
  by simp

lemma adj_all_tl:
  "adj_all P xs \<Longrightarrow> adj_all P (tl xs)"
  by (induction P xs rule: adj_all.induct) auto

lemma adj_all_snoc:
  "adj_all P (xs @ [y, z]) \<longleftrightarrow> adj_all P (xs @ [y]) \<and> P y z"
  using adj_all_append [of P xs y "[z]"] by simp

lemma adj_all_rev:
  "adj_all P (rev xs) \<longleftrightarrow> adj_all (\<lambda>a b. P b a) xs"
proof (induction "\<lambda>a b. P b a" xs rule: adj_all.induct)
  case (1 a b xs)
  then show ?case
    using adj_all_append [of P "rev xs" b "[a]"] by auto
qed auto

lemma adj_all_map:
  "adj_all P (map f xs) \<longleftrightarrow> adj_all (\<lambda>a b. P (f a) (f b)) xs"
  by (induction "\<lambda>a b. P (f a) (f b)" xs rule: adj_all.induct) auto

lemma adj_all_mono:
  "adj_all P xs \<Longrightarrow> (\<And>a b. P a b \<Longrightarrow> Q a b) \<Longrightarrow> adj_all Q xs"
  by (induction P xs rule: adj_all.induct) auto

lemma adj_all_conj [model_simps]:
  "adj_all (\<lambda>a b. P a b \<and> Q a b) xs \<longleftrightarrow> adj_all P xs \<and> adj_all Q xs"
  by (induction P xs rule: adj_all.induct) auto

lemma adj_all_appendD1:
  "adj_all P (xs @ ys) \<Longrightarrow> adj_all P xs"
  by (induction P xs rule: adj_all.induct) (simp_all add: Cons_eq_append_conv)

lemma adj_all_appendD2:
  "adj_all P (xs @ ys) \<Longrightarrow> adj_all P ys"
proof (induction xs)
  case (Cons x xs)
  then have "adj_all P (xs @ ys)"
    using adj_all_tl [of P "x # xs @ ys"] by simp
  then show ?case by (rule Cons.IH)
qed simp

lemma adj_all_sublist:
  assumes "adj_all P xs" and "sublist ys xs"
  shows "adj_all P ys"
proof -
  from assms(2) obtain ps ss where xs: "xs = ps @ ys @ ss"
    by (auto simp: sublist_def)
  with assms(1) have "adj_all P (ys @ ss)"
    by (simp add: adj_all_appendD2 [of P ps])
  then show ?thesis by (rule adj_all_appendD1)
qed

lemma adj_all_sorted_wrt:
  "adj_all P xs \<Longrightarrow> (\<And>a b c. P a b \<Longrightarrow> P b c \<Longrightarrow> P a c) \<Longrightarrow> sorted_wrt P xs"
proof (induction P xs rule: adj_all.induct)
  case (1 P a b xs)
  then have sb: "sorted_wrt P (b # xs)" and ab: "P a b" by auto
  have "P a y" if "y \<in> set xs" for y
  proof -
    from sb that have "P b y" by simp
    with ab show ?thesis by (rule "1.prems"(2))
  qed
  with sb ab show ?case by simp
qed auto

subsection \<open>Deterministic step relations\<close>

text \<open>In a deterministic step relation, two stuck states reachable from the same state
  are equal.\<close>

lemma deterministic_stuck_unique:
  assumes det: "\<And>a b c. R a b \<Longrightarrow> R a c \<Longrightarrow> b = c"
    and ab: "R\<^sup>*\<^sup>* a b" and ac: "R\<^sup>*\<^sup>* a c"
    and b_stuck: "\<And>x. \<not> R b x" and c_stuck: "\<And>x. \<not> R c x"
  shows "b = c"
  using ab ac c_stuck
proof (induction arbitrary: c rule: converse_rtranclp_induct)
  case base
  then show ?case
    using b_stuck by (auto elim: converse_rtranclpE)
next
  case (step a y)
  from step.prems(1) show ?case
  proof (cases rule: converse_rtranclpE)
    case base
    with step.hyps(1) step.prems(2) [of y] show ?thesis by simp
  next
    case (step y')
    with det [OF \<open>R a y\<close>] have "R\<^sup>*\<^sup>* y c" by simp
    then show ?thesis using step.prems(2) by (rule step.IH)
  qed
qed

end
