(* ===== verification/Safety.thy ===== *)
theory Safety
  imports Prelude
begin

text \<open>
  The Safety Checker, \<open>is_safe\<close> of \<open>src/solution.py\<close> (lines 4--29). The
  definition follows the code step by step: the length guard, the list of adjacent
  differences built from \<open>zip(levels, levels[1:])\<close>, the early \<open>return False\<close> when
  some difference has an absolute value outside \<open>(1, 2, 3)\<close>, and the final
  \<open>all_pos or all_neg\<close>. The abstract specification \<open>safe_spec\<close> says what the
  function promises: every adjacent step goes up by 1 to 3, or every adjacent step goes
  down by 1 to 3. The lemmas show that the code meets it and derive the properties the
  specification lists (short reports, repeated values, bad steps) together with the
  symmetries of the rule (reversal, negation, contiguous sub-reports) and the
  bounds on the total rise or fall of a safe report.
\<close>

text \<open>\<open>diffs = [b - a for a, b in zip(levels, levels[1:])]\<close>: Python's \<open>zip\<close>
  stops at the shorter list, as HOL's does, and \<open>levels[1:]\<close> of an empty list is
  empty, as \<open>tl []\<close> is.\<close>

definition diffs_of :: "report \<Rightarrow> int list" where
  "diffs_of levels = map (\<lambda>(a, b). b - a) (zip levels (tl levels))"

definition is_safe :: "report \<Rightarrow> bool" where
  "is_safe levels =
     (if length levels \<le> 1 then True
      else
        (let diffs = diffs_of levels in
         if list_ex (\<lambda>d. \<bar>d\<bar> \<notin> set [1, 2, 3]) diffs then False
         else
           (let all_pos = list_all (\<lambda>d. d > 0) diffs;
                all_neg = list_all (\<lambda>d. d < 0) diffs
            in all_pos \<or> all_neg)))"

text \<open>The contract of the Safety Checker (spec 4.1): every step rises by 1 to 3, or
  every step falls by 1 to 3.\<close>

definition safe_up :: "int \<Rightarrow> int \<Rightarrow> bool" where
  "safe_up a b \<longleftrightarrow> 1 \<le> b - a \<and> b - a \<le> 3"

definition safe_spec :: "report \<Rightarrow> bool" where
  "safe_spec levels \<longleftrightarrow> adj_all safe_up levels \<or> adj_all (\<lambda>a b. safe_up b a) levels"

subsection \<open>The differences and the adjacent pairs\<close>

lemma diffs_of_Cons_Cons [simp]:
  "diffs_of (a # b # xs) = (b - a) # diffs_of (b # xs)"
  by (simp add: diffs_of_def)

lemma diffs_of_short [simp]:
  "diffs_of [] = []" "diffs_of [a] = []"
  by (simp_all add: diffs_of_def)

lemma length_diffs_of:
  "length (diffs_of levels) = length levels - 1"
  by (simp add: diffs_of_def)

lemma list_all_diffs_of [model_simps]:
  "list_all Q (diffs_of xs) \<longleftrightarrow> adj_all (\<lambda>a b. Q (b - a)) xs"
  by (induction "\<lambda>a b. Q (b - a)" xs rule: adj_all.induct) auto

lemma list_ex_diffs_of [model_simps]:
  "list_ex Q (diffs_of xs) \<longleftrightarrow> \<not> adj_all (\<lambda>a b. \<not> Q (b - a)) xs"
  by (induction "\<lambda>a b. \<not> Q (b - a)" xs rule: adj_all.induct) auto

lemma abs_step_up:
  "(\<bar>d\<bar> \<in> set [1, 2, 3] \<and> 0 < d) \<longleftrightarrow> (1 \<le> d \<and> d \<le> (3::int))"
  by auto

lemma abs_step_down:
  "(\<bar>d\<bar> \<in> set [1, 2, 3] \<and> d < 0) \<longleftrightarrow> (1 \<le> - d \<and> - d \<le> (3::int))"
  by auto

subsection \<open>The code meets its contract\<close>

lemma is_safe_adj:
  "is_safe levels \<longleftrightarrow> adj_all safe_up levels \<or> adj_all (\<lambda>a b. safe_up b a) levels"
proof (cases "length levels \<le> 1")
  case True
  then have "levels = [] \<or> (\<exists>x. levels = [x])"
    by (cases levels) auto
  then show ?thesis by (auto simp: is_safe_def)
next
  case False
  let ?ok = "\<lambda>a b. \<bar>b - a\<bar> \<in> set [1, 2, 3::int]"
  have "is_safe levels \<longleftrightarrow>
          (adj_all ?ok levels \<and> adj_all (\<lambda>a b. 0 < b - a) levels)
        \<or> (adj_all ?ok levels \<and> adj_all (\<lambda>a b. b - a < 0) levels)"
    using False by (auto simp: is_safe_def Let_def model_simps)
  also have "\<dots> \<longleftrightarrow> adj_all (\<lambda>a b. ?ok a b \<and> 0 < b - a) levels
                  \<or> adj_all (\<lambda>a b. ?ok a b \<and> b - a < 0) levels"
    by (simp only: adj_all_conj)
  also have "\<dots> \<longleftrightarrow> adj_all safe_up levels \<or> adj_all (\<lambda>a b. safe_up b a) levels"
    by (simp only: abs_step_up abs_step_down minus_diff_eq safe_up_def [abs_def])
  finally show ?thesis .
qed


lemma safe_up_uminus [simp]:
  "safe_up (- a) (- b) \<longleftrightarrow> safe_up b a"
  by (auto simp: safe_up_def)

lemma safe_up_abs:
  "safe_up a b \<Longrightarrow> \<bar>b - a\<bar> \<in> {1, 2, 3}"
  by (auto simp: safe_up_def)

lemma adj_all_down_uminus:
  "adj_all (\<lambda>a b. safe_up b a) xs \<longleftrightarrow> adj_all safe_up (map uminus xs)"
  by (simp add: adj_all_map)

lemma is_safe_sorted:
  "is_safe xs \<Longrightarrow> sorted_wrt (<) xs \<or> sorted_wrt (>) xs"
proof -
  assume "is_safe xs"
  then consider "adj_all safe_up xs" | "adj_all (\<lambda>a b. safe_up b a) xs"
    unfolding is_safe_adj by blast
  then show ?thesis
  proof cases
    case 1
    then have "adj_all (<) xs" by (rule adj_all_mono) (simp add: safe_up_def)
    then show ?thesis by (auto elim: adj_all_sorted_wrt)
  next
    case 2
    then have "adj_all (>) xs" by (rule adj_all_mono) (simp add: safe_up_def)
    then have "sorted_wrt (>) xs" by (rule adj_all_sorted_wrt) simp
    then show ?thesis ..
  qed
qed

lemma is_safe_distinct:
  "is_safe xs \<Longrightarrow> distinct xs"
proof -
  assume "is_safe xs"
  then consider "sorted_wrt (<) xs" | "sorted_wrt (<) (rev xs)"
    using is_safe_sorted sorted_wrt_rev by blast
  then show "distinct xs"
    by cases (auto simp: strict_sorted_iff)
qed

lemma adj_all_up_span:
  "adj_all safe_up xs \<Longrightarrow> xs \<noteq> [] \<Longrightarrow>
     int (length xs) - 1 \<le> last xs - hd xs \<and> last xs - hd xs \<le> 3 * (int (length xs) - 1)"
proof (induction safe_up xs rule: adj_all.induct)
  case (1 a b xs)
  then have "int (length (b # xs)) - 1 \<le> last (b # xs) - b"
    and "last (b # xs) - b \<le> 3 * (int (length (b # xs)) - 1)"
    and "safe_up a b"
    by auto
  then show ?case by (simp add: safe_up_def)
qed auto

lemma int_in_one_to_three:
  "(d::int) \<in> {1, 2, 3} \<longleftrightarrow> 1 \<le> d \<and> d \<le> 3"
  by auto

lemma safe_up_iff_step:
  "safe_up a b \<longleftrightarrow> b - a \<in> {1, 2, 3}"
  by (simp only: safe_up_def int_in_one_to_three)

subsection \<open>Properties of the Safety Checker\<close>

text \<open>C1. The Safety Checker implements its contract: \<open>is_safe\<close> returns True exactly
  when every adjacent step rises by 1 to 3 or every adjacent step falls by 1 to 3.\<close>

theorem is_safe_refines_spec:
  "is_safe levels = safe_spec levels"
  by (simp add: is_safe_adj safe_spec_def)

text \<open>C6. A report in which some value occurs twice, adjacent or not, is unsafe
  (spec 8: a repeated value makes a zero difference or breaks monotonicity).\<close>

theorem is_safe_repeated_value:
  "\<not> distinct levels \<Longrightarrow> \<not> is_safe levels"
  using is_safe_distinct by blast

theorem is_safe_repeated_value_witness:
  "\<not> distinct [1, 2, 1::int] \<and> \<not> is_safe [1, 2, 1]"
  using is_safe_repeated_value [of "[1, 2, 1]"] by simp

text \<open>C7. One adjacent step whose absolute value is 0 or at least 4 makes the report
  unsafe, whichever way the rest of the report goes.\<close>

theorem is_safe_bad_step:
  assumes "Suc i < length levels"
    and "\<bar>levels ! Suc i - levels ! i\<bar> \<notin> {1, 2, 3}"
  shows "\<not> is_safe levels"
proof
  assume "is_safe levels"
  then have "safe_up (levels ! i) (levels ! Suc i) \<or> safe_up (levels ! Suc i) (levels ! i)"
    using assms(1) by (auto simp: is_safe_adj adj_all_nth)
  with assms(2) show False
    using safe_up_abs [of "levels ! i" "levels ! Suc i"] safe_up_abs [of "levels ! Suc i" "levels ! i"]
    by (auto simp: abs_minus_commute)
qed

theorem is_safe_bad_step_witness:
  "Suc 1 < length [1, 2, 7, 8::int] \<and> \<bar>[1, 2, 7, 8::int] ! Suc 1 - [1, 2, 7, 8::int] ! 1\<bar> \<notin> {1, 2, 3}
   \<and> \<not> is_safe [1, 2, 7, 8]"
  using is_safe_bad_step [of 1 "[1, 2, 7, 8]"] by simp

text \<open>C8. A strictly increasing report whose every step is 1, 2 or 3 is safe.\<close>

theorem is_safe_increasing:
  "adj_all (\<lambda>a b. b - a \<in> {1, 2, 3}) levels \<Longrightarrow> is_safe levels"
  unfolding is_safe_adj by (auto elim: adj_all_mono simp: safe_up_iff_step)

theorem is_safe_increasing_witness:
  "adj_all (\<lambda>a b. b - a \<in> {1, 2, 3}) [1, 2, 3, 4::int] \<and> is_safe [1, 2, 3, 4]"
  using is_safe_increasing [of "[1, 2, 3, 4]"] by simp

text \<open>C9. A strictly decreasing report whose every step is -1, -2 or -3 is safe.\<close>

theorem is_safe_decreasing:
  "adj_all (\<lambda>a b. a - b \<in> {1, 2, 3}) levels \<Longrightarrow> is_safe levels"
  unfolding is_safe_adj by (auto elim: adj_all_mono simp: safe_up_iff_step)

theorem is_safe_decreasing_witness:
  "adj_all (\<lambda>a b. a - b \<in> {1, 2, 3}) [9, 7, 6, 4::int] \<and> is_safe [9, 7, 6, 4]"
  using is_safe_decreasing [of "[9, 7, 6, 4]"] by simp

text \<open>C10. A report of length 0 or 1 is safe (spec 3 and 4.1 step 1).\<close>

theorem is_safe_short:
  "length levels \<le> 1 \<Longrightarrow> is_safe levels"
  by (simp add: is_safe_def)

theorem is_safe_short_witness:
  "length [5::int] \<le> 1 \<and> is_safe [5]"
  using is_safe_short [of "[5]"] by simp


text \<open>C14. Reading a report backwards does not change its verdict: a safe rising report
  is a safe falling one reversed.\<close>

theorem is_safe_rev:
  "is_safe (rev levels) = is_safe levels"
  by (auto simp: is_safe_adj adj_all_rev)

text \<open>C15. Negating every level does not change the verdict.\<close>

theorem is_safe_negate:
  "is_safe (map uminus levels) = is_safe levels"
  by (auto simp: is_safe_adj adj_all_map)

text \<open>C16. Every contiguous part of a safe report is safe.\<close>

theorem is_safe_sublist:
  "is_safe levels \<Longrightarrow> sublist part levels \<Longrightarrow> is_safe part"
  unfolding is_safe_adj by (auto intro: adj_all_sublist)

theorem is_safe_sublist_witness:
  "is_safe [1, 2, 3, 4] \<and> sublist [2, 3] [1, 2, 3, 4::int] \<and> is_safe [2, 3]"
proof -
  have s: "is_safe [1, 2, 3, 4]" by (simp add: is_safe_def)
  have p: "sublist [2, 3] [1, 2, 3, 4::int]"
    using sublist_appendI [of "[2, 3::int]" "[1]" "[4]"] by simp
  from is_safe_sublist [OF s p] s p show ?thesis by simp
qed

text \<open>C17. The first and last levels of a non-empty safe report of length \<open>n\<close> are
  between \<open>n - 1\<close> and \<open>3 (n - 1)\<close> apart.\<close>

theorem is_safe_span_bounds:
  assumes "is_safe xs" and "xs \<noteq> []"
  shows "int (length xs) - 1 \<le> \<bar>last xs - hd xs\<bar> \<and> \<bar>last xs - hd xs\<bar> \<le> 3 * (int (length xs) - 1)"
proof -
  from assms(1) consider "adj_all safe_up xs" | "adj_all safe_up (map uminus xs)"
    unfolding is_safe_adj adj_all_down_uminus by blast
  then show ?thesis
  proof cases
    case 1
    from adj_all_up_span [OF 1 assms(2)] show ?thesis by (auto simp: abs_if)
  next
    case 2
    have "map uminus xs \<noteq> []" using assms(2) by simp
    from adj_all_up_span [OF 2 this] assms(2) show ?thesis
      by (auto simp: last_map hd_map abs_if)
  qed
qed

theorem is_safe_span_bounds_witness:
  "is_safe [1, 2, 4] \<and> [1, 2, 4::int] \<noteq> [] \<and>
     int (length [1, 2, 4::int]) - 1 \<le> \<bar>last [1, 2, 4] - hd [1, 2, 4::int]\<bar>
   \<and> \<bar>last [1, 2, 4] - hd [1, 2, 4::int]\<bar> \<le> 3 * (int (length [1, 2, 4::int]) - 1)"
proof -
  have s: "is_safe [1, 2, 4]" by (simp add: is_safe_def)
  from is_safe_span_bounds [OF s] s show ?thesis by simp
qed

end
