(* ===== verification/PyText.thy ===== *)
theory PyText
  imports Prelude
begin

text \<open>
  The Python string operations the program calls on its input: \<open>line.strip()\<close>
  (\<open>count_safe_reports\<close>, line 48), \<open>stripped.split()\<close> (line 51) and
  \<open>sys.stdin.readlines()\<close> (\<open>main\<close>, line 61). They are modelled after CPython's
  implementations: \<open>strip\<close> and \<open>split\<close> with no argument use
  \<open>str.isspace\<close>, which on code points below 256 holds for \<open>\t \n \v \f \r\<close>
  (9--13), the separators 28--31, the space (32), NEL (133) and NO-BREAK SPACE (160);
  \<open>split\<close> skips runs of whitespace and returns the maximal non-whitespace runs;
  \<open>readlines\<close> returns the lines with their newline kept; CPython opens
  \<open>sys.stdin\<close> with \<open>newline="\n"\<close> on POSIX systems (lines end at \<open>\n\<close>
  only, a \<open>\r\<close> stays in the text) and with universal newlines on Windows
  (\<open>\r\n\<close> and a lone \<open>\r\<close> become \<open>\n\<close>), so the model takes the
  platform as a parameter.
  The lemmas show that the tokens \<open>split\<close> returns are non-empty and free of
  whitespace, that they are all the non-whitespace characters in order, that
  \<open>strip\<close> changes nothing
  \<open>split\<close> sees, and that \<open>readlines\<close> loses no character.
\<close>

definition py_isspace :: "char \<Rightarrow> bool" where
  "py_isspace c =
     (let n = of_char c :: nat in (9 \<le> n \<and> n \<le> 13) \<or> (28 \<le> n \<and> n \<le> 32) \<or> n = 133 \<or> n = 160)"

text \<open>\<open>str.strip()\<close>: CPython's \<open>do_strip\<close> advances from the left over whitespace,
  then back from the right, and returns the slice between.\<close>

definition py_strip :: "py_str \<Rightarrow> py_str" where
  "py_strip s = rev (dropWhile py_isspace (rev (dropWhile py_isspace s)))"

text \<open>\<open>str.split()\<close>: CPython's \<open>split_whitespace\<close> skips whitespace; at the end of
  the string it stops; otherwise it takes the run of non-whitespace characters as the
  next token and continues after it.\<close>

function py_split :: "py_str \<Rightarrow> py_str list" where
  "py_split s =
     (let s' = dropWhile py_isspace s in
      if s' = [] then []
      else takeWhile (\<lambda>c. \<not> py_isspace c) s' # py_split (dropWhile (\<lambda>c. \<not> py_isspace c) s'))"
  by pat_completeness auto
termination
proof (relation "measure length")
  fix s s' :: py_str
  assume s': "s' = dropWhile py_isspace s" and ne: "s' \<noteq> []"
  then obtain c r where cr: "s' = c # r" and "\<not> py_isspace c"
    by (metis hd_dropWhile list.collapse)
  then have "length (dropWhile (\<lambda>c. \<not> py_isspace c) s') \<le> length r"
    by (simp add: length_dropWhile_le)
  also have "\<dots> < length s'" using cr by simp
  also have "\<dots> \<le> length s" using s' by (simp add: length_dropWhile_le)
  finally show "(dropWhile (\<lambda>c. \<not> py_isspace c) s', s) \<in> measure length" by simp
qed simp

text \<open>The platform decides how \<open>create_stdio\<close> configures \<open>sys.stdin\<close>.\<close>

datatype platform = POSIX | Windows

text \<open>Universal newlines: \<open>\r\n\<close> and a lone \<open>\r\<close> become \<open>\n\<close>.\<close>

fun translate_newlines :: "py_str \<Rightarrow> py_str" where
  "translate_newlines [] = []"
| "translate_newlines [c] = [if c = CHR 0x0D then CHR 0x0A else c]"
| "translate_newlines (c # d # s) =
     (if c = CHR 0x0D \<and> d = CHR 0x0A then CHR 0x0A # translate_newlines s
      else (if c = CHR 0x0D then CHR 0x0A else c) # translate_newlines (d # s))"

text \<open>The lines of the translated text, each with its \<open>\n\<close>; the last one without
  it when the text does not end in a newline; no empty last line.\<close>

fun split_lines :: "py_str \<Rightarrow> py_str \<Rightarrow> py_str list" where
  "split_lines cur [] = (if cur = [] then [] else [cur])"
| "split_lines cur (c # s) =
     (if c = CHR 0x0A then (cur @ [c]) # split_lines [] s else split_lines (cur @ [c]) s)"

definition py_readlines :: "platform \<Rightarrow> py_str \<Rightarrow> py_str list" where
  "py_readlines plat s =
     split_lines [] (case plat of POSIX \<Rightarrow> s | Windows \<Rightarrow> translate_newlines s)"

declare py_split.simps [simp del]

subsection \<open>strip\<close>

lemma all_set_dropWhile:
  "(\<forall>x \<in> set (dropWhile P s). P x) \<longleftrightarrow> (\<forall>x \<in> set s. P x)"
proof
  assume "\<forall>x \<in> set (dropWhile P s). P x"
  then have "dropWhile P s = []"
    using hd_dropWhile [of P s] hd_in_set by blast
  then show "\<forall>x \<in> set s. P x" by simp
next
  assume "\<forall>x \<in> set s. P x"
  then show "\<forall>x \<in> set (dropWhile P s). P x"
    by (auto dest: set_dropWhileD)
qed

lemma py_strip_Nil_iff [model_simps]:
  "py_strip s = [] \<longleftrightarrow> list_all py_isspace s"
  by (simp add: py_strip_def all_set_dropWhile list_all_iff)

lemma py_strip_no_space_id:
  "list_all (\<lambda>c. \<not> py_isspace c) s \<Longrightarrow> py_strip s = s"
proof -
  assume a: "list_all (\<lambda>c. \<not> py_isspace c) s"
  then have "dropWhile py_isspace s = s"
    by (cases s) auto
  moreover from a have "dropWhile py_isspace (rev s) = rev s"
    by (cases "s = []") (auto simp: dropWhile_eq_self_iff list_all_iff hd_rev)
  ultimately show ?thesis by (simp add: py_strip_def)
qed

subsection \<open>split\<close>

lemma py_split_Nil [simp]: "py_split [] = []"
  by (simp add: py_split.simps)

lemma py_split_space [simp]:
  "py_isspace c \<Longrightarrow> py_split (c # s) = py_split s"
  by (simp add: py_split.simps [of "c # s"] py_split.simps [of s])

lemma py_split_nonspace:
  "\<not> py_isspace c \<Longrightarrow>
     py_split (c # s) =
       (c # takeWhile (\<lambda>c. \<not> py_isspace c) s) # py_split (dropWhile (\<lambda>c. \<not> py_isspace c) s)"
  by (simp add: py_split.simps [of "c # s"])

lemma py_split_dropWhile_space [simp]:
  "py_split (dropWhile py_isspace s) = py_split s"
  by (induction s) auto

lemma py_split_token:
  assumes "t \<noteq> []" and "list_all (\<lambda>c. \<not> py_isspace c) t" and "py_isspace c"
  shows "py_split (t @ c # rest) = t # py_split rest"
proof -
  from assms(1) obtain x t' where t: "t = x # t'" by (cases t) auto
  with assms(2) have x: "\<not> py_isspace x" and t': "\<forall>y \<in> set t'. \<not> py_isspace y"
    by (auto simp: list_all_iff)
  have "takeWhile (\<lambda>c. \<not> py_isspace c) (t' @ c # rest) = t'"
    using t' assms(3) by (simp add: takeWhile_append2)
  moreover have "dropWhile (\<lambda>c. \<not> py_isspace c) (t' @ c # rest) = c # rest"
    using t' assms(3) by (simp add: dropWhile_append2)
  ultimately show ?thesis
    using x assms(3) by (simp add: t py_split_nonspace)
qed

lemma py_split_single_token:
  assumes "t \<noteq> []" and "list_all (\<lambda>c. \<not> py_isspace c) t"
  shows "py_split t = [t]"
proof -
  from assms(1) obtain x t' where t: "t = x # t'" by (cases t) auto
  with assms(2) have x: "\<not> py_isspace x" and t': "\<forall>y \<in> set t'. \<not> py_isspace y"
    by (auto simp: list_all_iff)
  from t' have tk: "takeWhile (\<lambda>c. \<not> py_isspace c) t' = t'"
    and dr: "dropWhile (\<lambda>c. \<not> py_isspace c) t' = []"
    by (simp_all add: takeWhile_eq_all_conv dropWhile_eq_Nil_conv)
  show ?thesis by (simp only: t py_split_nonspace [OF x] tk dr py_split_Nil)
qed


lemma takeWhile_dropWhile_append_all:
  "list_all P w \<Longrightarrow>
     takeWhile (\<lambda>c. \<not> P c) (r @ w) = takeWhile (\<lambda>c. \<not> P c) r
   \<and> dropWhile (\<lambda>c. \<not> P c) (r @ w) = dropWhile (\<lambda>c. \<not> P c) r @ w"
proof (induction r)
  case Nil
  then show ?case by (cases w) auto
qed auto

lemma py_split_all_space:
  "list_all py_isspace s \<Longrightarrow> py_split s = []"
  by (induction s) auto

lemma py_split_Nil_iff [model_simps]:
  "py_split s = [] \<longleftrightarrow> list_all py_isspace s"
proof (induction s)
  case (Cons c s)
  then show ?case by (cases "py_isspace c") (simp_all add: py_split_nonspace)
qed simp

lemma py_split_append_space:
  "list_all py_isspace w \<Longrightarrow> py_split (s @ w) = py_split s"
proof (induction s rule: py_split.induct)
  case (1 s)
  show ?case
  proof (cases "dropWhile py_isspace s")
    case Nil
    then have "list_all py_isspace s" by (simp add: list_all_iff)
    with "1.prems" show ?thesis by (simp add: py_split_all_space)
  next
    case (Cons c r)
    then have c: "\<not> py_isspace c" and "c \<in> set s"
      using hd_dropWhile [of py_isspace s] set_dropWhileD [of c py_isspace s] by auto
    then have "dropWhile py_isspace (s @ w) = c # r @ w"
      using Cons by (simp add: dropWhile_append1)
    then have "py_split (s @ w) = py_split (c # r @ w)"
      by (metis py_split_dropWhile_space)
    also have "\<dots> = (c # takeWhile (\<lambda>c. \<not> py_isspace c) r)
                      # py_split (dropWhile (\<lambda>c. \<not> py_isspace c) r @ w)"
      using c takeWhile_dropWhile_append_all [OF "1.prems", of r] by (simp add: py_split_nonspace)
    also have "py_split (dropWhile (\<lambda>c. \<not> py_isspace c) r @ w)
             = py_split (dropWhile (\<lambda>c. \<not> py_isspace c) r)"
      using "1.IH" [of "c # r"] Cons c "1.prems" by simp
    also have "(c # takeWhile (\<lambda>c. \<not> py_isspace c) r) # py_split (dropWhile (\<lambda>c. \<not> py_isspace c) r)
             = py_split s"
      using Cons c by (metis py_split_dropWhile_space py_split_nonspace)
    finally show ?thesis .
  qed
qed

lemma takeWhile_filter_dropWhile:
  "takeWhile P xs @ filter P (dropWhile P xs) = filter P xs"
  by (induction xs) auto

lemma filter_dropWhile_not:
  "filter P (dropWhile (\<lambda>c. \<not> P c) s) = filter P s"
  by (induction s) auto


lemma py_strip_append_trailing:
  "dropWhile py_isspace s = py_strip s @ rev (takeWhile py_isspace (rev (dropWhile py_isspace s)))"
proof -
  let ?d = "dropWhile py_isspace s"
  have "rev ?d = takeWhile py_isspace (rev ?d) @ dropWhile py_isspace (rev ?d)"
    by simp
  then have "?d = rev (dropWhile py_isspace (rev ?d)) @ rev (takeWhile py_isspace (rev ?d))"
    by (metis rev_append rev_rev_ident)
  then show ?thesis by (simp add: py_strip_def)
qed

lemma py_split_py_strip:
  "py_split (py_strip s) = py_split s"
proof -
  have w: "list_all py_isspace (rev (takeWhile py_isspace (rev (dropWhile py_isspace s))))"
    by (auto simp: list_all_iff dest: set_takeWhileD)
  have "py_split s = py_split (dropWhile py_isspace s)" by simp
  also have "\<dots> = py_split (py_strip s)"
    by (subst py_strip_append_trailing) (rule py_split_append_space [OF w])
  finally show ?thesis by simp
qed

lemma py_strip_append_space:
  "py_isspace c \<Longrightarrow> py_strip (t @ [c]) = py_strip t"
proof (cases "list_all py_isspace t")
  case True
  assume "py_isspace c"
  with True show ?thesis by (simp add: py_strip_def dropWhile_append list_all_iff all_set_dropWhile)
next
  case False
  assume c: "py_isspace c"
  from False obtain x where "x \<in> set t" and "\<not> py_isspace x"
    by (auto simp: list_all_iff)
  then have "dropWhile py_isspace (t @ [c]) = dropWhile py_isspace t @ [c]"
    by (rule dropWhile_append1)
  with c show ?thesis by (simp add: py_strip_def)
qed

lemma set_py_strip:
  "set (py_strip s) \<subseteq> set s"
proof
  fix x
  assume "x \<in> set (py_strip s)"
  then have "x \<in> set (dropWhile py_isspace (rev (dropWhile py_isspace s)))"
    by (simp add: py_strip_def)
  then have "x \<in> set (dropWhile py_isspace s)"
    by (auto dest: set_dropWhileD)
  then show "x \<in> set s" by (rule set_dropWhileD)
qed

lemma py_strip_Nil_iff_split:
  "py_strip s = [] \<longleftrightarrow> py_split s = []"
  by (simp add: py_strip_Nil_iff py_split_Nil_iff)

lemma split_lines_concat:
  "concat (split_lines cur s) = cur @ s"
  by (induction cur s rule: split_lines.induct) auto

lemma translate_newlines_no_cr:
  "CHR 0x0D \<notin> set (translate_newlines s)"
  by (induction s rule: translate_newlines.induct) auto

lemma translate_newlines_id:
  "CHR 0x0D \<notin> set s \<Longrightarrow> translate_newlines s = s"
  by (induction s rule: translate_newlines.induct) auto

lemma length_translate_newlines:
  "length (translate_newlines s) \<le> length s"
  by (induction s rule: translate_newlines.induct) auto

lemma length_le_length_concat:
  "\<forall>l \<in> set ls. l \<noteq> [] \<Longrightarrow> length ls \<le> length (concat ls)"
proof (induction ls)
  case (Cons l ls)
  then have "1 \<le> length l" by (simp add: Suc_leI)
  with Cons show ?case by simp
qed simp

lemma split_lines_lines:
  "l \<in> set (split_lines cur s) \<Longrightarrow> CHR 0x0A \<notin> set cur \<Longrightarrow>
     l \<noteq> [] \<and> CHR 0x0A \<notin> set (butlast l)"
  by (induction cur s rule: split_lines.induct) (auto split: if_splits dest: in_set_butlastD)

text \<open>\<open>readlines()\<close> returns at most one line per character of the input.\<close>

lemma length_py_readlines:
  "length (py_readlines plat s) \<le> length s"
proof -
  let ?t = "case plat of POSIX \<Rightarrow> s | Windows \<Rightarrow> translate_newlines s"
  have "\<forall>l \<in> set (split_lines [] ?t). l \<noteq> []"
    using split_lines_lines [of _ "[]" ?t] by simp
  then have "length (split_lines [] ?t) \<le> length (concat (split_lines [] ?t))"
    by (rule length_le_length_concat)
  moreover have "length ?t \<le> length s"
    by (cases plat) (simp_all add: length_translate_newlines)
  ultimately show ?thesis by (simp add: py_readlines_def split_lines_concat)
qed

subsection \<open>Properties of the text primitives\<close>

text \<open>C18. Every token \<open>str.split()\<close> returns is non-empty and contains no
  whitespace character.\<close>

theorem py_split_tokens:
  "t \<in> set (py_split s) \<Longrightarrow> t \<noteq> [] \<and> list_all (\<lambda>c. \<not> py_isspace c) t"
proof (induction s rule: py_split.induct)
  case (1 s)
  show ?case
  proof (cases "dropWhile py_isspace s")
    case Nil
    with "1.prems" show ?thesis by (simp add: py_split.simps [of s])
  next
    case (Cons c r)
    then have c: "\<not> py_isspace c"
      using hd_dropWhile [of py_isspace s] by auto
    from "1.prems" Cons consider "t = c # takeWhile (\<lambda>c. \<not> py_isspace c) r"
      | "t \<in> set (py_split (dropWhile (\<lambda>c. \<not> py_isspace c) (c # r)))"
      using c by (auto simp: py_split.simps [of s])
    then show ?thesis
    proof cases
      case 1
      with c show ?thesis by (auto simp: list_all_iff dest: set_takeWhileD)
    next
      case 2
      with "1.IH" [of "c # r"] Cons show ?thesis by simp
    qed
  qed
qed


theorem py_split_tokens_witness:
  "''12'' \<in> set (py_split '' 7 12 '') \<and> ''12'' \<noteq> [] \<and> list_all (\<lambda>c. \<not> py_isspace c) ''12''"
proof -
  have m: "''12'' \<in> set (py_split '' 7 12 '')"
    by (simp add: py_split.simps py_isspace_def)
  from py_split_tokens [OF m] m show ?thesis by simp
qed

text \<open>C19. \<open>str.split()\<close> loses no character and invents none: the tokens,
  concatenated, are the non-whitespace characters of the line in order.\<close>

theorem concat_py_split:
  "concat (py_split s) = filter (\<lambda>c. \<not> py_isspace c) s"
proof (induction s rule: py_split.induct)
  case (1 s)
  show ?case
  proof (cases "dropWhile py_isspace s")
    case Nil
    then have "list_all py_isspace s" by (simp add: list_all_iff)
    then show ?thesis by (simp add: py_split_all_space list_all_iff filter_empty_conv)
  next
    case (Cons c r)
    let ?nws = "\<lambda>c. \<not> py_isspace c"
    have "concat (py_split s) = takeWhile ?nws (c # r) @ concat (py_split (dropWhile ?nws (c # r)))"
      using Cons by (simp add: py_split.simps [of s])
    also have "\<dots> = takeWhile ?nws (c # r) @ filter ?nws (dropWhile ?nws (c # r))"
      using "1.IH" [of "c # r"] Cons by simp
    also have "\<dots> = filter ?nws (c # r)"
      by (rule takeWhile_filter_dropWhile)
    also have "\<dots> = filter ?nws s"
      using Cons filter_dropWhile_not [of ?nws s] by simp
    finally show ?thesis .
  qed
qed


text \<open>C20. \<open>stripped.split()\<close> sees the same tokens as \<open>line.split()\<close>: the
  \<open>strip()\<close> before it removes only whitespace that \<open>split()\<close> skips anyway, and a
  line strips to the empty string exactly when it has no token.\<close>

theorem py_split_strip:
  "py_split (py_strip s) = py_split s \<and> (py_strip s = [] \<longleftrightarrow> py_split s = [])"
  by (simp add: py_split_py_strip py_strip_Nil_iff_split)

text \<open>C21. \<open>readlines()\<close> loses no character: on POSIX the lines concatenate to
  the input itself; on Windows to the newline-translated input, in which no carriage
  return is left.\<close>

theorem py_readlines_concat:
  "concat (py_readlines POSIX s) = s
   \<and> concat (py_readlines Windows s) = translate_newlines s
   \<and> CHR 0x0D \<notin> set (concat (py_readlines Windows s))"
  by (simp add: py_readlines_def split_lines_concat translate_newlines_no_cr)

text \<open>C22. Every line \<open>readlines()\<close> returns is non-empty and has a newline at most as
  its last character.\<close>

theorem py_readlines_lines:
  "l \<in> set (py_readlines plat s) \<Longrightarrow> l \<noteq> [] \<and> CHR 0x0A \<notin> set (butlast l)"
  using split_lines_lines [of l "[]"] by (simp add: py_readlines_def)

theorem py_readlines_lines_witness:
  "''3 4'' \<in> set (py_readlines POSIX ''1 2\<newline>3 4'') \<and> ''3 4'' \<noteq> [] \<and> CHR 0x0A \<notin> set (butlast ''3 4'')"
proof -
  have m: "''3 4'' \<in> set (py_readlines POSIX ''1 2\<newline>3 4'')"
    by (simp add: py_readlines_def)
  from py_readlines_lines [OF m] m show ?thesis by simp
qed

end
