(* ===== verification/PyInt.thy ===== *)
theory PyInt
  imports PyText
begin

text \<open>
  Python's \<open>int(token)\<close> (\<open>count_safe_reports\<close>, line 51) and \<open>str(n)\<close>, which
  \<open>print(result)\<close> applies (\<open>main\<close>, line 63), as CPython 3.11 implements them.
  \<open>int()\<close> on a \<open>str\<close> (\<open>PyLong_FromUnicodeObject\<close>) first maps every non-ASCII
  Unicode space to an ASCII space and every non-ASCII decimal digit to an ASCII digit,
  then runs \<open>PyLong_FromString\<close> in base 10: it skips leading whitespace
  (\<open>Py_ISSPACE\<close>: \<open>\t \n \v \f \r\<close> and the space; the separators U+001C..U+001F,
  which \<open>str.isspace\<close> accepts, are not skipped), reads an optional \<open>+\<close> or
  \<open>-\<close>, then scans the run of digits and underscores (an underscore must come
  between two digits), raises the digit-limit error when the run holds more than 4300
  digits, requires the run to be non-empty and the rest of the string to be whitespace,
  and raises \<open>ValueError\<close> naming the string otherwise. Below U+0100 the only decimal
  digits are the ASCII ones. \<open>str()\<close> writes the decimal digits of the magnitude
  without leading zeros, after a \<open>-\<close> for a negative number, and raises the
  digit-limit error when there are more than 4300 of them. The limit is CPython's
  default \<open>sys.int_info.default_max_str_digits\<close>. The lemmas show that
  \<open>str()\<close> succeeds exactly below \<open>10 ^ 4300\<close> and \<open>int()\<close> reads its output back,
  what \<open>int()\<close> returns on signed digit strings of either length, that single
  underscores are ignored, and that a token without a digit is an error.
\<close>

definition is_digit :: "char \<Rightarrow> bool" where
  "is_digit c = (let n = of_char c :: nat in 48 \<le> n \<and> n \<le> 57)"

definition digit_value :: "char \<Rightarrow> int" where
  "digit_value c = int (of_char c) - 48"

text \<open>\<open>Py_ISSPACE\<close> after \<open>_PyUnicode_TransformDecimalAndSpaceToASCII\<close>: the ASCII
  whitespace of C, and NEL (133) and NO-BREAK SPACE (160), which become spaces.\<close>

definition int_isspace :: "char \<Rightarrow> bool" where
  "int_isspace c = (let n = of_char c :: nat in (9 \<le> n \<and> n \<le> 13) \<or> n = 32 \<or> n = 133 \<or> n = 160)"

definition max_str_digits :: nat where
  "max_str_digits = 4300"

definition is_digit_or_us :: "char \<Rightarrow> bool" where
  "is_digit_or_us c \<longleftrightarrow> is_digit c \<or> c = CHR ''_''"

text \<open>The sign: \<open>True\<close> for \<open>-\<close>, and the text after it.\<close>

definition split_sign :: "py_str \<Rightarrow> bool \<times> py_str" where
  "split_sign t =
     (case t of
        [] \<Rightarrow> (False, [])
      | c # r \<Rightarrow> if c = CHR ''-'' then (True, r) else if c = CHR ''+'' then (False, r) else (False, t))"

text \<open>The digit loop of \<open>PyLong_FromString\<close> on the run of digits and underscores:
  digits accumulate; an underscore must follow a digit (guaranteed by the caller for
  the first character) and be followed by a digit.\<close>

fun digits_tail :: "int \<Rightarrow> py_str \<Rightarrow> int option" where
  "digits_tail acc [] = Some acc"
| "digits_tail acc [c] = (if is_digit c then Some (10 * acc + digit_value c) else None)"
| "digits_tail acc (c # d # ds) =
     (if is_digit c then digits_tail (10 * acc + digit_value c) (d # ds)
      else if c = CHR ''_'' \<and> is_digit d then digits_tail (10 * acc + digit_value d) ds
      else None)"

text \<open>The run must start with a digit (a leading underscore, or no digit at all, is
  an invalid literal).\<close>

definition parse_unsigned :: "py_str \<Rightarrow> int option" where
  "parse_unsigned s =
     (case s of
        [] \<Rightarrow> None
      | c # cs \<Rightarrow> if is_digit c then digits_tail (digit_value c) cs else None)"

text \<open>\<open>int(s)\<close>: the checks in the order of \<open>PyLong_FromString\<close>: a malformed run,
  then the digit limit, then trailing text other than whitespace.\<close>

definition py_int :: "py_str \<Rightarrow> int py_result" where
  "py_int s =
     (let (neg, u) = split_sign (dropWhile int_isspace s);
          run = takeWhile is_digit_or_us u
      in case parse_unsigned run of
           None \<Rightarrow> Inl (ValueError s)
         | Some v \<Rightarrow>
             if max_str_digits < length (filter is_digit run) then Inl DigitLimitError
             else if dropWhile int_isspace (dropWhile is_digit_or_us u) \<noteq> [] then Inl (ValueError s)
             else Inr (if neg then - v else v))"

definition digit_char :: "nat \<Rightarrow> char" where
  "digit_char d = char_of (48 + d)"

fun nat_digits :: "nat \<Rightarrow> py_str" where
  "nat_digits n = (if n < 10 then [digit_char n] else nat_digits (n div 10) @ [digit_char (n mod 10)])"

text \<open>\<open>str(i)\<close> (\<open>long_to_decimal_string_internal\<close>): the digits of the magnitude,
  checked against the limit, after a \<open>-\<close> for a negative number.\<close>

definition py_str_int :: "int \<Rightarrow> py_str py_result" where
  "py_str_int i =
     (let ds = nat_digits (nat \<bar>i\<bar>) in
      if max_str_digits < length ds then Inl DigitLimitError
      else Inr (if i < 0 then CHR ''-'' # ds else ds))"

text \<open>The value of a string of decimal digits, most significant first.\<close>

definition decimal_value :: "py_str \<Rightarrow> int" where
  "decimal_value ds = foldl (\<lambda>a c. 10 * a + digit_value c) 0 ds"

declare nat_digits.simps [simp del]

text \<open>The equations that evaluate \<open>int()\<close> on a concrete token by \<open>simp\<close>.\<close>

lemmas py_int_eval = py_int_def split_sign_def int_isspace_def is_digit_or_us_def
  parse_unsigned_def is_digit_def digit_value_def max_str_digits_def

subsection \<open>Digits\<close>

lemma digits_tail_digit:
  "is_digit c \<Longrightarrow> digits_tail acc (c # r) = digits_tail (10 * acc + digit_value c) r"
  by (cases r) simp_all

lemma digits_tail_all_digits:
  "list_all is_digit ds \<Longrightarrow> digits_tail acc ds = Some (foldl (\<lambda>a c. 10 * a + digit_value c) acc ds)"
  by (induction ds arbitrary: acc) (simp_all add: digits_tail_digit)

lemma parse_unsigned_digits:
  "ds \<noteq> [] \<Longrightarrow> list_all is_digit ds \<Longrightarrow> parse_unsigned ds = Some (decimal_value ds)"
  by (cases ds) (simp_all add: parse_unsigned_def decimal_value_def digits_tail_all_digits)

lemma digit_char_props:
  "d < 10 \<Longrightarrow> is_digit (digit_char d) \<and> digit_value (digit_char d) = int d"
  by (simp add: digit_char_def is_digit_def digit_value_def of_char_of)

lemma int_isspace_not_digit_or_us:
  "int_isspace c \<Longrightarrow> \<not> is_digit_or_us c"
  by (auto simp: int_isspace_def is_digit_or_us_def is_digit_def Let_def)

lemma special_chars [simp]:
  "\<not> is_digit (CHR ''-'')" "\<not> is_digit (CHR ''+'')" "\<not> is_digit (CHR ''_'')"
  "\<not> int_isspace (CHR ''-'')" "\<not> int_isspace (CHR ''+'')"
  "\<not> is_digit_or_us (CHR ''-'')" "\<not> is_digit_or_us (CHR ''+'')"
  by (simp_all add: is_digit_def int_isspace_def is_digit_or_us_def)

lemma is_digit_or_us_not_space_sign:
  "is_digit_or_us c \<Longrightarrow> \<not> int_isspace c \<and> c \<noteq> CHR ''-'' \<and> c \<noteq> CHR ''+''"
  using int_isspace_not_digit_or_us by auto

lemma nat_digits_props:
  "nat_digits n \<noteq> [] \<and> list_all is_digit (nat_digits n)
   \<and> foldl (\<lambda>a c. 10 * a + digit_value c) 0 (nat_digits n) = int n"
proof (induction n rule: nat_digits.induct)
  case (1 n)
  show ?case
  proof (cases "n < 10")
    case True
    then show ?thesis by (simp add: nat_digits.simps [of n] digit_char_props)
  next
    case False
    with "1.IH" have ih: "list_all is_digit (nat_digits (n div 10))"
      "foldl (\<lambda>a c. 10 * a + digit_value c) 0 (nat_digits (n div 10)) = int (n div 10)"
      by simp_all
    have "int n = 10 * int (n div 10) + int (n mod 10)" by arith
    with False ih show ?thesis
      by (simp add: nat_digits.simps [of n] digit_char_props)
  qed
qed

text \<open>\<open>str()\<close> writes at most \<open>k\<close> digits exactly for the numbers below \<open>10 ^ k\<close>.\<close>

lemma length_nat_digits:
  "0 < k \<Longrightarrow> length (nat_digits n) \<le> k \<longleftrightarrow> n < 10 ^ k"
proof (induction n arbitrary: k rule: nat_digits.induct)
  case (1 n)
  show ?case
  proof (cases "n < 10")
    case True
    moreover have "(10::nat) ^ 1 \<le> 10 ^ k" using "1.prems" by (intro power_increasing) simp_all
    ultimately show ?thesis using "1.prems" by (simp add: nat_digits.simps [of n])
  next
    case False
    then have len: "length (nat_digits n) = Suc (length (nat_digits (n div 10)))"
      by (simp add: nat_digits.simps [of n])
    from "1.prems" obtain k' where k: "k = Suc k'" by (cases k) auto
    show ?thesis
    proof (cases "k' = 0")
      case True
      with False k len nat_digits_props [of "n div 10"] show ?thesis by simp
    next
      case k0: False
      with "1.IH" False have "length (nat_digits (n div 10)) \<le> k' \<longleftrightarrow> n div 10 < 10 ^ k'"
        by simp
      moreover have "n div 10 < 10 ^ k' \<longleftrightarrow> n < 10 ^ k" using k
        by (simp add: div_less_iff_less_mult mult.commute)
      ultimately show ?thesis using len k by simp
    qed
  qed
qed


subsection \<open>The scan of \<open>int()\<close>\<close>

lemma int_isspace_scan:
  "list_all int_isspace w \<Longrightarrow>
     takeWhile is_digit_or_us w = [] \<and> dropWhile is_digit_or_us w = w \<and> dropWhile int_isspace w = []"
  by (cases w) (simp_all add: int_isspace_not_digit_or_us dropWhile_eq_Nil_conv list_all_iff)

text \<open>\<open>int()\<close> on a run of digits and underscores, after an optional sign, between
  whitespace: the run decides the result.\<close>

lemma py_int_signed_run:
  assumes w: "list_all int_isspace w" and w': "list_all int_isspace w'"
    and r: "r \<noteq> []" "list_all is_digit_or_us r"
    and sg: "sg = [] \<or> sg = [CHR ''-''] \<or> sg = [CHR ''+'']"
  shows "py_int (w @ sg @ r @ w') =
     (case parse_unsigned r of
        None \<Rightarrow> Inl (ValueError (w @ sg @ r @ w'))
      | Some v \<Rightarrow>
          if max_str_digits < length (filter is_digit r) then Inl DigitLimitError
          else Inr (if sg = [CHR ''-''] then - v else v))"
proof -
  from r obtain c r' where c: "r = c # r'" and cd: "is_digit_or_us c"
    by (cases r) auto
  have "dropWhile int_isspace (w @ sg @ r @ w') = dropWhile int_isspace (sg @ r @ w')"
    using w by (simp add: dropWhile_append2 list_all_iff)
  also have "\<dots> = sg @ r @ w'"
    using sg c cd is_digit_or_us_not_space_sign [OF cd] by auto
  finally have d: "dropWhile int_isspace (w @ sg @ r @ w') = sg @ r @ w'" .
  have s: "split_sign (sg @ r @ w') = (sg = [CHR ''-''], r @ w')"
    using sg c is_digit_or_us_not_space_sign [OF cd] by (auto simp: split_sign_def)
  have t: "takeWhile is_digit_or_us (r @ w') = r" and u: "dropWhile is_digit_or_us (r @ w') = w'"
    using r(2) int_isspace_scan [OF w'] by (simp_all add: takeWhile_append2 dropWhile_append2 list_all_iff)
  show ?thesis
    using d s t u int_isspace_scan [OF w'] by (simp add: py_int_def split: option.split)
qed

lemma set_split_sign:
  "set (snd (split_sign t)) \<subseteq> set t"
  by (auto simp: split_sign_def split: list.split)

lemma digits_tail_underscore:
  assumes "list_all is_digit ds" and "es \<noteq> []" and "list_all is_digit es"
  shows "digits_tail acc (ds @ CHR ''_'' # es) = digits_tail acc (ds @ es)"
  using assms(1)
proof (induction ds arbitrary: acc)
  case Nil
  from assms(2,3) obtain e es' where "es = e # es'" and "is_digit e"
    by (cases es) auto
  then show ?case by (simp add: digits_tail_digit)
next
  case (Cons d ds)
  then show ?case by (simp add: digits_tail_digit)
qed

lemma parse_unsigned_no_digit:
  "\<not> list_ex is_digit t \<Longrightarrow> parse_unsigned t = None"
  by (cases t) (simp_all add: parse_unsigned_def)

subsection \<open>The output of \<open>str()\<close>\<close>

lemma nat_abs_less_iff:
  "nat \<bar>i\<bar> < 10 ^ k \<longleftrightarrow> \<bar>i\<bar> < 10 ^ k"
  by (simp add: nat_less_iff)

lemma max_str_digits_pos: "0 < max_str_digits"
  by (simp add: max_str_digits_def)

lemma py_str_int_Inr_iff:
  "(\<exists>s. py_str_int i = Inr s) \<longleftrightarrow> \<bar>i\<bar> < 10 ^ max_str_digits"
  using length_nat_digits [OF max_str_digits_pos, of "nat \<bar>i\<bar>"]
  by (auto simp: py_str_int_def Let_def nat_abs_less_iff)

lemma py_str_int_Inl:
  "py_str_int i = Inl e \<Longrightarrow> e = DigitLimitError"
  by (simp add: py_str_int_def Let_def split: if_splits)

lemma py_str_int_Inr:
  assumes "py_str_int i = Inr s"
  shows "\<exists>sg ds. s = sg @ ds \<and> (sg = [] \<or> sg = [CHR ''-''])
    \<and> ds \<noteq> [] \<and> list_all is_digit ds \<and> length ds \<le> max_str_digits
    \<and> decimal_value ds = \<bar>i\<bar> \<and> (sg = [CHR ''-''] \<longleftrightarrow> i < 0)"
proof -
  let ?ds = "nat_digits (nat \<bar>i\<bar>)"
  from assms have len: "length ?ds \<le> max_str_digits"
    and s: "s = (if i < 0 then [CHR ''-''] else []) @ ?ds"
    by (simp_all add: py_str_int_def Let_def split: if_splits)
  have "?ds \<noteq> [] \<and> list_all is_digit ?ds \<and> decimal_value ?ds = \<bar>i\<bar>"
    using nat_digits_props [of "nat \<bar>i\<bar>"] by (simp add: decimal_value_def)
  with len s show ?thesis by fastforce
qed

text \<open>\<open>int()\<close> reads back what \<open>str()\<close> writes, also with whitespace around it.\<close>

lemma py_int_py_str_int:
  assumes "py_str_int i = Inr s" and w: "list_all int_isspace w" and w': "list_all int_isspace w'"
  shows "py_int (w @ s @ w') = Inr i"
proof -
  from py_str_int_Inr [OF assms(1)] obtain sg ds where s: "s = sg @ ds"
    and sg: "sg = [] \<or> sg = [CHR ''-'']" and ds: "ds \<noteq> []" "list_all is_digit ds"
    and len: "length ds \<le> max_str_digits" and v: "decimal_value ds = \<bar>i\<bar>"
    and neg: "sg = [CHR ''-''] \<longleftrightarrow> i < 0"
    by blast
  from ds(2) have "list_all is_digit_or_us ds" by (simp add: list_all_iff is_digit_or_us_def)
  with sg have "py_int (w @ sg @ ds @ w') =
     (case parse_unsigned ds of
        None \<Rightarrow> Inl (ValueError (w @ sg @ ds @ w'))
      | Some v \<Rightarrow>
          if max_str_digits < length (filter is_digit ds) then Inl DigitLimitError
          else Inr (if sg = [CHR ''-''] then - v else v))"
    using py_int_signed_run [OF w w' ds(1)] by blast
  with ds len v neg s show ?thesis
    by (auto simp: parse_unsigned_digits filter_id_conv list_all_iff)
qed


subsection \<open>Properties of int() and str()\<close>

text \<open>C5. \<open>str(i)\<close> succeeds exactly when \<open>i\<close> has at most 4300 decimal digits,
  i.e. \<open>|i| < 10 ^ 4300\<close>, and otherwise raises the digit-limit \<open>ValueError\<close>;
  when it succeeds, \<open>int()\<close> reads the text back to \<open>i\<close>.\<close>

theorem py_int_str_roundtrip:
  "(case py_str_int i of Inl e \<Rightarrow> e = DigitLimitError | Inr s \<Rightarrow> py_int s = Inr i)
   \<and> ((\<exists>s. py_str_int i = Inr s) \<longleftrightarrow> \<bar>i\<bar> < 10 ^ max_str_digits)"
proof -
  have "case py_str_int i of Inl e \<Rightarrow> e = DigitLimitError | Inr s \<Rightarrow> py_int s = Inr i"
  proof (cases "py_str_int i")
    case (Inl e)
    then show ?thesis by (simp add: py_str_int_Inl)
  next
    case (Inr s)
    with py_int_py_str_int [of i s "[]" "[]"] show ?thesis by simp
  qed
  then show ?thesis by (simp add: py_str_int_Inr_iff)
qed

text \<open>C23. On a non-empty string of decimal digits \<open>ds\<close> with whitespace around it,
  \<open>int(ds)\<close>, \<open>int('-' + ds)\<close> and \<open>int('+' + ds)\<close> return the decimal value, its
  negation and the value again (leading zeros are accepted) when \<open>ds\<close> has at most
  4300 digits, and raise the digit-limit \<open>ValueError\<close> when it has more.\<close>

theorem py_int_signed_digits:
  assumes "ds \<noteq> []" and "list_all is_digit ds"
    and "list_all int_isspace w" and "list_all int_isspace w'"
  shows "py_int (w @ ds @ w') =
      (if length ds \<le> max_str_digits then Inr (decimal_value ds) else Inl DigitLimitError)
    \<and> py_int (w @ CHR ''-'' # ds @ w') =
      (if length ds \<le> max_str_digits then Inr (- decimal_value ds) else Inl DigitLimitError)
    \<and> py_int (w @ CHR ''+'' # ds @ w') =
      (if length ds \<le> max_str_digits then Inr (decimal_value ds) else Inl DigitLimitError)"
proof -
  have r: "list_all is_digit_or_us ds" using assms(2) by (simp add: list_all_iff is_digit_or_us_def)
  have p: "parse_unsigned ds = Some (decimal_value ds)" and f: "filter is_digit ds = ds"
    using assms(1,2) by (simp_all add: parse_unsigned_digits list_all_iff)
  have "py_int (w @ sg @ ds @ w') =
      (if length ds \<le> max_str_digits then Inr (if sg = [CHR ''-''] then - decimal_value ds else decimal_value ds)
       else Inl DigitLimitError)"
    if "sg = [] \<or> sg = [CHR ''-''] \<or> sg = [CHR ''+'']" for sg
    using py_int_signed_run [OF assms(3,4,1) r that] p f by simp
  from this [of "[]"] this [of "[CHR ''-'']"] this [of "[CHR ''+'']"] show ?thesis by simp
qed

theorem py_int_signed_digits_witness:
  "''007'' \<noteq> [] \<and> list_all is_digit ''007''
   \<and> list_all int_isspace '' '' \<and> list_all int_isspace ''\<newline>''
   \<and> py_int ('' '' @ ''007'' @ ''\<newline>'') = Inr 7
   \<and> py_int ('' '' @ CHR ''-'' # ''007'' @ ''\<newline>'') = Inr (- 7)
   \<and> py_int ('' '' @ CHR ''+'' # ''007'' @ ''\<newline>'') = Inr 7"
proof -
  have h: "''007'' \<noteq> []" "list_all is_digit ''007''"
    "list_all int_isspace '' ''" "list_all int_isspace ''\<newline>''"
    by (simp_all add: is_digit_def int_isspace_def)
  have v: "decimal_value ''007'' = 7" and l: "length ''007'' \<le> max_str_digits"
    by (simp_all add: decimal_value_def digit_value_def max_str_digits_def)
  from py_int_signed_digits [OF h] h v l show ?thesis by simp
qed

text \<open>C24. A single underscore between two digit groups is ignored by \<open>int()\<close>:
  \<open>int('1_000') == int('1000')\<close>.\<close>

theorem py_int_underscore:
  assumes "ds \<noteq> []" and "list_all is_digit ds" and "es \<noteq> []" and "list_all is_digit es"
  shows "py_int (ds @ CHR ''_'' # es) = py_int (ds @ es)"
proof -
  from assms(1,2) obtain d ds' where ds: "ds = d # ds'" and d: "is_digit d" and ds': "list_all is_digit ds'"
    by (cases ds) auto
  have r1: "list_all is_digit_or_us (ds @ CHR ''_'' # es)" and r2: "list_all is_digit_or_us (ds @ es)"
    using assms(2,4) by (auto simp: list_all_iff is_digit_or_us_def)
  have "digits_tail (digit_value d) (ds' @ CHR ''_'' # es) = digits_tail (digit_value d) (ds' @ es)"
    using ds' assms(3,4) by (rule digits_tail_underscore)
  then have p: "parse_unsigned (ds @ CHR ''_'' # es) = parse_unsigned (ds @ es)"
    by (simp add: ds d parse_unsigned_def)
  have "ds @ es \<noteq> []" "list_all is_digit (ds @ es)" using assms by simp_all
  then have "parse_unsigned (ds @ es) = Some (decimal_value (ds @ es))" by (rule parse_unsigned_digits)
  moreover have "filter is_digit (ds @ CHR ''_'' # es) = filter is_digit (ds @ es)" by simp
  ultimately show ?thesis
    using py_int_signed_run [of "[]" "[]" "ds @ CHR ''_'' # es" "[]"] r1
      py_int_signed_run [of "[]" "[]" "ds @ es" "[]"] r2 p ds by simp
qed

theorem py_int_underscore_witness:
  "''1'' \<noteq> [] \<and> list_all is_digit ''1'' \<and> ''000'' \<noteq> [] \<and> list_all is_digit ''000''
   \<and> py_int (''1'' @ CHR ''_'' # ''000'') = py_int (''1'' @ ''000'')"
proof -
  have h: "''1'' \<noteq> []" "list_all is_digit ''1''" "''000'' \<noteq> []" "list_all is_digit ''000''"
    by (simp_all add: is_digit_def)
  from py_int_underscore [OF h] h show ?thesis by simp
qed

text \<open>C25. A token that contains no decimal digit (the empty token, a lone sign, a
  word) makes \<open>int()\<close> raise \<open>ValueError\<close> carrying that token.\<close>

theorem py_int_no_digit:
  "\<not> list_ex is_digit s \<Longrightarrow> py_int s = Inl (ValueError s)"
proof -
  assume h: "\<not> list_ex is_digit s"
  obtain neg u where su: "split_sign (dropWhile int_isspace s) = (neg, u)" by fastforce
  have "set (takeWhile is_digit_or_us u) \<subseteq> set s"
    using set_split_sign [of "dropWhile int_isspace s"] su set_takeWhileD [of _ is_digit_or_us u]
      set_dropWhileD [of _ int_isspace s] by fastforce
  with h have "\<not> list_ex is_digit (takeWhile is_digit_or_us u)"
    by (auto simp: list_ex_iff)
  then show ?thesis by (simp add: py_int_def su parse_unsigned_no_digit)
qed

theorem py_int_no_digit_witness:
  "\<not> list_ex is_digit ''-'' \<and> py_int ''-'' = Inl (ValueError ''-'')"
proof -
  have h: "\<not> list_ex is_digit ''-''" by simp
  from py_int_no_digit [OF h] h show ?thesis by simp
qed

end
