(* ===== verification/Counter.thy ===== *)
theory Counter
  imports Safety PyInt
begin

text \<open>
  The Report Counter, \<open>count_safe_reports\<close> of \<open>src/solution.py\<close> (lines 32--54).
  The \<open>for\<close> loop is the tail-recursive \<open>count_loop\<close>, whose first argument is the
  accumulator \<open>safe_count\<close>; each iteration strips the line, skips it when the result
  is empty (\<open>continue\<close>), otherwise converts its tokens with
  \<open>list(map(int, stripped.split()))\<close>, where the first malformed token raises
  \<open>ValueError\<close> out of the whole call, and adds one when \<open>is_safe\<close> holds.
  The specification \<open>count_spec\<close> states the contract of spec 4.2 without a loop:
  drop the blank lines, parse every other line into a report (failing as soon as one
  line fails), and count the safe reports. The lemmas prove that the loop implements it,
  that blank lines never count, when the call fails, that the count is bounded by the
  number of non-blank lines, and how counts over concatenated inputs combine.
\<close>

fun count_loop :: "nat \<Rightarrow> py_str list \<Rightarrow> nat py_result" where
  "count_loop safe_count [] = Inr safe_count"
| "count_loop safe_count (line # lines) =
     (let stripped = py_strip line in
      if stripped = [] then count_loop safe_count lines
      else
        (case mapM_err py_int (py_split stripped) of
           Inl e \<Rightarrow> Inl e
         | Inr levels \<Rightarrow>
             count_loop (if is_safe levels then safe_count + 1 else safe_count) lines))"

definition count_safe_reports :: "py_str list \<Rightarrow> nat py_result" where
  "count_safe_reports lines = count_loop 0 lines"

text \<open>The contract (spec 4.2): a line is blank when it strips to nothing; every other
  line is parsed into a report by splitting at whitespace and converting each token.\<close>

definition parse_report :: "py_str \<Rightarrow> report py_result" where
  "parse_report line = mapM_err py_int (py_split line)"

definition nonblank :: "py_str \<Rightarrow> bool" where
  "nonblank line \<longleftrightarrow> py_strip line \<noteq> []"

definition count_spec :: "py_str list \<Rightarrow> nat py_result" where
  "count_spec lines =
     (case mapM_err parse_report (filter nonblank lines) of
        Inl e \<Rightarrow> Inl e
      | Inr reports \<Rightarrow> Inr (length (filter is_safe reports)))"

subsection \<open>The loop implements the contract\<close>

lemma count_spec_Nil [simp]: "count_spec [] = Inr 0"
  by (simp add: count_spec_def)

lemma count_spec_blank:
  "\<not> nonblank line \<Longrightarrow> count_spec (line # lines) = count_spec lines"
  by (simp add: count_spec_def)

lemma count_spec_nonblank:
  "nonblank line \<Longrightarrow>
     count_spec (line # lines) =
       (case parse_report line of
          Inl e \<Rightarrow> Inl e
        | Inr levels \<Rightarrow>
            (case count_spec lines of
               Inl e \<Rightarrow> Inl e
             | Inr k \<Rightarrow> Inr (if is_safe levels then Suc k else k)))"
  by (simp add: count_spec_def split: sum.splits)

lemma count_loop_spec:
  "count_loop n lines = (case count_spec lines of Inl e \<Rightarrow> Inl e | Inr k \<Rightarrow> Inr (n + k))"
proof (induction lines arbitrary: n)
  case Nil
  then show ?case by simp
next
  case (Cons line lines)
  show ?case
  proof (cases "nonblank line")
    case False
    with Cons.IH show ?thesis
      by (simp add: count_spec_blank nonblank_def)
  next
    case True
    then have "mapM_err py_int (py_split (py_strip line)) = parse_report line"
      by (simp add: parse_report_def py_split_py_strip)
    with True Cons.IH show ?thesis
      by (auto simp: count_spec_nonblank nonblank_def split: sum.splits)
  qed
qed

lemma count_loop_0:
  "count_loop 0 lines = count_spec lines"
  by (simp add: count_loop_spec split: sum.splits)

lemma count_spec_append:
  "count_spec (xs @ ys) =
     (case count_spec xs of
        Inl e \<Rightarrow> Inl e
      | Inr a \<Rightarrow> (case count_spec ys of Inl e \<Rightarrow> Inl e | Inr b \<Rightarrow> Inr (a + b)))"
  by (simp add: count_spec_def mapM_err_append split: sum.splits)

lemma count_spec_Inl_iff:
  "(\<exists>e. count_spec lines = Inl e) \<longleftrightarrow> (\<exists>l \<in> set (filter nonblank lines). \<exists>e. parse_report l = Inl e)"
  using mapM_err_Inl_iff [of parse_report "filter nonblank lines"]
  by (auto simp: count_spec_def split: sum.splits)

lemma parse_report_Inl_iff:
  "(\<exists>e. parse_report l = Inl e) \<longleftrightarrow> (\<exists>t \<in> set (py_split l). \<exists>e. py_int t = Inl e)"
  by (simp add: parse_report_def mapM_err_Inl_iff)

lemma count_spec_Inr_bound:
  "count_spec lines = Inr n \<Longrightarrow> n \<le> length (filter nonblank lines)"
proof -
  assume "count_spec lines = Inr n"
  then obtain reports where r: "mapM_err parse_report (filter nonblank lines) = Inr reports"
    and n: "n = length (filter is_safe reports)"
    by (auto simp: count_spec_def split: sum.splits)
  from r have "length reports = length (filter nonblank lines)"
    by (rule mapM_err_length)
  with n show ?thesis by (metis length_filter_le)
qed

lemma count_safe_reports_Inl:
  assumes "count_safe_reports lines = Inl e"
  shows "\<exists>l \<in> set lines. \<exists>t \<in> set (py_split l). py_int t = Inl e"
proof -
  from assms have "mapM_err parse_report (filter nonblank lines) = Inl e"
    by (simp add: count_safe_reports_def count_loop_0 count_spec_def split: sum.splits)
  then obtain l where "l \<in> set (filter nonblank lines)" and "parse_report l = Inl e"
    by (blast dest: mapM_err_Inl)
  then have l: "l \<in> set lines" and "parse_report l = Inl e" by simp_all
  then obtain t where "t \<in> set (py_split l)" and "py_int t = Inl e"
    unfolding parse_report_def by (blast dest: mapM_err_Inl)
  with l show ?thesis by blast
qed

subsection \<open>Properties of the Report Counter\<close>

text \<open>C2. The counting loop implements the contract of spec 4.2: its result is the
  number of safe reports among the parsed non-blank lines, or the first parse error.\<close>

theorem count_safe_reports_refines:
  "count_safe_reports lines = count_spec lines"
  by (simp add: count_safe_reports_def count_loop_0 split: sum.splits)

text \<open>C3. Blank and whitespace-only lines never affect the result: removing them
  changes neither the count nor an error. (A blank line would otherwise count as safe,
  since \<open>is_safe []\<close> holds; the \<open>continue\<close> is what excludes it.)\<close>

theorem count_skips_blank_lines:
  "count_safe_reports (filter nonblank lines) = count_safe_reports lines"
  by (simp add: count_safe_reports_def count_loop_0 count_spec_def)

text \<open>C4. The call fails exactly when some line holds a token that \<open>int()\<close>
  rejects; the failure is fatal, whatever the other lines hold.\<close>

theorem count_error_iff:
  "(\<exists>e. count_safe_reports lines = Inl e) \<longleftrightarrow>
     (\<exists>l \<in> set lines. \<exists>t \<in> set (py_split l). \<exists>e. py_int t = Inl e)"
proof -
  have "(\<exists>e. count_safe_reports lines = Inl e) \<longleftrightarrow> (\<exists>e. count_spec lines = Inl e)"
    by (simp add: count_safe_reports_def count_loop_0 split: sum.splits)
  also have "\<dots> \<longleftrightarrow> (\<exists>l \<in> set (filter nonblank lines). \<exists>t \<in> set (py_split l). \<exists>e. py_int t = Inl e)"
    by (simp add: count_spec_Inl_iff parse_report_Inl_iff)
  also have "\<dots> \<longleftrightarrow> (\<exists>l \<in> set lines. \<exists>t \<in> set (py_split l). \<exists>e. py_int t = Inl e)"
    by (force simp: nonblank_def py_strip_Nil_iff_split)
  finally show ?thesis .
qed

theorem count_error_iff_witness:
  "(\<exists>e. count_safe_reports [''1 2'', ''3 x''] = Inl e) \<and>
     (\<exists>l \<in> set [''1 2'', ''3 x'']. \<exists>t \<in> set (py_split l). \<exists>e. py_int t = Inl e)"
proof -
  have "py_int ''x'' = Inl (ValueError ''x'')"
    by (simp add: py_int_eval py_strip_def py_isspace_def)
  moreover have "''x'' \<in> set (py_split ''3 x'')"
    by (simp add: py_split.simps py_isspace_def)
  ultimately have h: "\<exists>l \<in> set [''1 2'', ''3 x'']. \<exists>t \<in> set (py_split l). \<exists>e. py_int t = Inl e"
    by auto
  with count_error_iff [of "[''1 2'', ''3 x'']"] show ?thesis by blast
qed

text \<open>C11. The count never exceeds the number of non-blank lines, hence never the
  number of lines.\<close>

theorem count_bound:
  "count_safe_reports lines = Inr n \<Longrightarrow> n \<le> length (filter nonblank lines) \<and> n \<le> length lines"
proof -
  assume "count_safe_reports lines = Inr n"
  then have "count_spec lines = Inr n"
    by (simp add: count_safe_reports_def count_loop_0 split: sum.splits)
  then have "n \<le> length (filter nonblank lines)" by (rule count_spec_Inr_bound)
  moreover have "length (filter nonblank lines) \<le> length lines" by (rule length_filter_le)
  ultimately show ?thesis by linarith
qed

theorem count_bound_witness:
  "count_safe_reports [''1 2 3'', '''', ''3 2 1''] = Inr 2
   \<and> 2 \<le> length (filter nonblank [''1 2 3'', '''', ''3 2 1'']) \<and> 2 \<le> length [''1 2 3'', '''', ''3 2 1'']"
proof -
  have h: "count_safe_reports [''1 2 3'', '''', ''3 2 1''] = Inr 2"
    by (simp add: count_safe_reports_def py_strip_def py_isspace_def py_split.simps py_int_eval
        is_safe_def)
  from count_bound [OF h] h show ?thesis by simp
qed

text \<open>C12. Counting a concatenation of inputs: the first input's error wins, then the
  second's; otherwise the counts add up.\<close>

theorem count_append:
  "count_safe_reports (xs @ ys) =
     (case count_safe_reports xs of
        Inl e \<Rightarrow> Inl e
      | Inr a \<Rightarrow> (case count_safe_reports ys of Inl e \<Rightarrow> Inl e | Inr b \<Rightarrow> Inr (a + b)))"
  by (simp add: count_safe_reports_def count_loop_0 count_spec_append split: sum.splits)

end
