(* ===== verification/Program.thy ===== *)
theory Program
  imports Counter
begin

text \<open>
  The entry point \<open>main\<close> of \<open>src/solution.py\<close> (lines 57--67): read all of standard
  input as lines (\<open>sys.stdin.readlines()\<close>, whose line ends depend on the platform),
  count the safe
  reports, and print the count followed by a newline. The model takes the decoded input
  text and returns either the error that escapes (and ends the program with a traceback)
  or the text written to standard output. \<open>print(result)\<close> converts the count with
  \<open>str()\<close>, which raises the digit-limit \<open>ValueError\<close> for a count of more than
  4300 digits (only an input of at least \<open>10 ^ 4300\<close> lines has one); then nothing is
  printed. The lemma shows that the output is the decimal count and nothing else:
  reading it back with \<open>int()\<close> gives the count.
\<close>

definition main :: "platform \<Rightarrow> py_str \<Rightarrow> py_str py_result" where
  "main plat stdin =
     (let lines = py_readlines plat stdin in
      case count_safe_reports lines of
        Inl e \<Rightarrow> Inl e
      | Inr result \<Rightarrow>
          (case py_str_int (int result) of
             Inl e \<Rightarrow> Inl e
           | Inr printed \<Rightarrow> Inr (printed @ ''\<newline>'')))"

subsection \<open>Properties of the entry point\<close>

text \<open>C13. When \<open>main\<close> succeeds it prints exactly what \<open>str()\<close> gives for the count of
  safe reports in its input, which is a string of decimal digits, then a newline:
  \<open>int()\<close> reads the printed text back to that count.\<close>

theorem main_output_roundtrip:
  assumes "main plat s = Inr out"
  shows "\<exists>n printed. count_safe_reports (py_readlines plat s) = Inr n
           \<and> py_str_int (int n) = Inr printed \<and> out = printed @ [CHR 0x0A]
           \<and> list_all is_digit printed
           \<and> py_int out = Inr (int n)"
proof -
  from assms obtain n printed where n: "count_safe_reports (py_readlines plat s) = Inr n"
    and printed: "py_str_int (int n) = Inr printed" and out: "out = printed @ [CHR 0x0A]"
    by (auto simp: main_def split: sum.splits)
  from py_str_int_Inr [OF printed] obtain sg ds where "printed = sg @ ds"
    and "sg = [] \<or> sg = [CHR ''-'']" and "list_all is_digit ds" and "sg = [CHR ''-''] \<longleftrightarrow> int n < 0"
    by blast
  then have digits: "list_all is_digit printed" by auto
  have "list_all int_isspace [CHR 0x0A]" by (simp add: int_isspace_def)
  with py_int_py_str_int [OF printed, of "[]"] have "py_int out = Inr (int n)"
    by (simp add: out)
  with n printed out digits show ?thesis by blast
qed

theorem main_output_roundtrip_witness:
  "main POSIX ''1 2\<newline>'' = Inr ''1\<newline>''
   \<and> (\<exists>n printed. count_safe_reports (py_readlines POSIX ''1 2\<newline>'') = Inr n
        \<and> py_str_int (int n) = Inr printed \<and> ''1\<newline>'' = printed @ [CHR 0x0A]
        \<and> list_all is_digit printed
        \<and> py_int ''1\<newline>'' = Inr (int n))"
proof -
  have h: "main POSIX ''1 2\<newline>'' = Inr ''1\<newline>''"
    by code_simp
  from main_output_roundtrip [OF h] h show ?thesis by blast
qed

end
