(* ===== verification/Spec2Isabelle.thy ===== *)
theory Spec2Isabelle
  imports Program CounterSteps
begin

text \<open>
  \<^bold>\<open>A verified model of the safe-report counter (\<open>src/solution.py\<close>).\<close>

  \<^emph>\<open>The program.\<close> \<open>main\<close> reads standard input with \<open>sys.stdin.readlines()\<close>,
  passes the lines to \<open>count_safe_reports\<close> and prints the result.
  \<open>count_safe_reports\<close> strips each line, skips the empty ones, converts the tokens of
  the others with \<open>list(map(int, stripped.split()))\<close> (the first malformed token raises
  \<open>ValueError\<close> out of the whole run) and counts the lines for which \<open>is_safe\<close>
  holds. \<open>is_safe\<close> computes the adjacent differences and accepts a report when all of
  them have absolute value 1, 2 or 3 and all have the same sign. The components call one
  another in that order and share no state besides the counter's accumulator.

  \<^emph>\<open>The theories.\<close>
  \<^item> \<open>Prelude\<close>: the error type \<open>py_error\<close> (Python's \<open>ValueError\<close>, either the
    invalid-literal error naming the text or the 4300-digit limit error), results
    \<open>py_error + 'a\<close>, \<open>mapM_err\<close> for \<open>list(map(f, xs))\<close> with a raising \<open>f\<close>, and
    \<open>adj_all P xs\<close> ("every adjacent pair satisfies P") with the list lemmas the
    components share.
  \<^item> \<open>Safety\<close>: \<open>is_safe\<close> (lines 4--29) and \<open>diffs_of\<close> (line 22), the contract
    \<open>safe_spec\<close>, and the properties of the checker (C1, C6--C10, C14--C17).
  \<^item> \<open>PyText\<close>: the CPython string operations the program calls: \<open>py_isspace\<close>,
    \<open>py_strip\<close> (line 48), \<open>py_split\<close> (line 51), \<open>py_readlines\<close> with
    \<open>split_lines\<close> and, on Windows, \<open>translate_newlines\<close> (line 61); the
    \<open>platform\<close> datatype records how CPython configures \<open>sys.stdin\<close>
    (\<open>newline="\n"\<close> on POSIX, universal newlines on Windows); properties C18--C22.
  \<^item> \<open>PyInt\<close>: \<open>py_int\<close>, Python's \<open>int()\<close> on a string (line 51), with its own
    whitespace set \<open>int_isspace\<close>, the sign \<open>split_sign\<close>, the run check
    \<open>parse_unsigned\<close> with the digit loop \<open>digits_tail\<close>, and the limit
    \<open>max_str_digits\<close>; and \<open>py_str_int\<close>, Python's \<open>str()\<close> of an integer (used by
    \<open>print\<close>, line 63), built from \<open>nat_digits\<close>; properties C5, C23--C25.
  \<^item> \<open>Counter\<close>: \<open>count_safe_reports\<close> (lines 32--54) with its loop
    \<open>count_loop\<close> (lines 46--54, the accumulator \<open>safe_count\<close> as first argument),
    the contract \<open>count_spec\<close> with \<open>parse_report\<close> and \<open>nonblank\<close>; properties
    C2--C4, C11, C12.
  \<^item> \<open>CounterSteps\<close>: the same loop as a state machine, one step per iteration:
    the record \<open>loop_state\<close> (\<open>safe_count\<close> and the lines the iterator has still to
    deliver), the outcomes \<open>loop_result\<close> (running, returned, raised), the initial
    state \<open>loop_init\<close> and the \<open>inductive\<close> relation \<open>loop_step\<close> with one rule per
    path through the loop body; properties C26, C27.
  \<^item> \<open>Program\<close>: \<open>main\<close> (lines 57--67), from the platform and the input text
    to the printed text or the escaping error; property C13.
  \<^item> This theory: the properties of \<open>main\<close> that span the components (C28, C29) and
    the scenarios of the specification run end to end as examples.

  \<^emph>\<open>How the model corresponds to the code.\<close> Python integers are \<open>int\<close> (unbounded,
  no overflow), the count is \<open>nat\<close>. A Python \<open>str\<close> is a \<open>char list\<close> whose
  characters stand for the code points U+0000..U+00FF; \<open>str.isspace\<close> and the
  whitespace \<open>int()\<close> skips are modelled on that range (they differ: \<open>int()\<close> does
  not skip U+001C..U+001F). Every exception is an \<open>Inl\<close> value. On decoded input the
  program can raise only \<open>ValueError\<close>: from \<open>int()\<close> on a malformed token or on
  a token of more than 4300 digits, and from \<open>str()\<close> on a count of more than 4300
  digits. The loop and \<open>main\<close> return the error as soon as it occurs, without a
  partial result. The limit 4300 is CPython's default (\<open>sys.int_info\<close>); a different
  limit set by \<open>PYTHONINTMAXSTRDIGITS\<close> or \<open>-X int_max_str_digits\<close> is not
  modelled. Loops are recursion: the \<open>for\<close> loop over lines is structural recursion on
  the list, \<open>str.split()\<close> is a \<open>function\<close> whose termination is proved by the
  measure \<open>length\<close>, and the digit loop of \<open>int()\<close> is structural. No fuel is
  needed: every function of the model is total and executable, so the examples are
  evaluated by \<open>simp\<close> and \<open>code_simp\<close>.

  \<^emph>\<open>What the lemmas show.\<close> The checker meets its contract (C1) and has the
  properties the specification lists (C6--C10) and the symmetries and bounds of the rule
  (C14--C17). The counter implements its loop-free contract (C2), ignores blank lines
  (C3), fails exactly when some token is not accepted by \<open>int()\<close> (C4), is bounded by
  the number of non-blank lines (C11) and is additive over concatenated inputs (C12).
  Run step by step, the loop ends in the contract's result (C26) and keeps the invariant
  that \<open>safe_count\<close> is the contract's count of the lines consumed so far (C27, by
  rule induction over the reachable states). The text primitives keep what the counter
  relies on: tokens are non-empty and whitespace-free and lose no character (C18, C19),
  stripping before splitting changes nothing (C20), line splitting loses nothing (C21,
  C22). \<open>str()\<close> succeeds exactly below \<open>10 ^ 4300\<close> and \<open>int()\<close> reads its
  output back (C5); \<open>int()\<close> accepts signs, leading zeros, surrounding whitespace and
  single underscores and enforces the digit limit (C23, C24) and rejects digit-free
  tokens (C25). The program prints exactly the count (C13), behaves alike on both
  platforms unless the input holds a carriage return (C28), and on any input shorter
  than \<open>10 ^ 4300\<close> characters fails only with the \<open>int()\<close> error of one of its
  tokens (C29).

  \<^emph>\<open>Not modelled.\<close> The decoding of the byte stream into text (UTF-8 by default) and
  the writing of the output are I/O of the interpreter; code points above U+00FF
  (Unicode whitespace and non-ASCII decimal digits, which \<open>int()\<close> would accept)
  are outside the model's character type; the traceback printed for an escaping error
  is not modelled beyond the error value.

  \<^emph>\<open>Plan.\<close> Every part of \<open>src/solution.py\<close> that computes is modelled, in the
  order of importance: the checker, the counter (as a function and as a step relation),
  the text primitives and \<open>int()\<close> and \<open>str()\<close> it calls, and \<open>main\<close>. Left for
  extension: the decoding of standard input (an invalid byte sequence raises
  \<open>UnicodeDecodeError\<close> under a strict UTF-8 locale, a second error path of
  \<open>main\<close>), and the Unicode whitespace and digits above U+00FF that \<open>strip\<close>,
  \<open>split\<close> and \<open>int()\<close> also accept.
\<close>

subsection \<open>Properties of the whole program\<close>

text \<open>C28. The platform matters only through carriage returns: on an input without
  \<open>\r\<close>, \<open>main\<close> gives the same result on POSIX and on Windows.\<close>

theorem main_platform_independent:
  "CHR 0x0D \<notin> set s \<Longrightarrow> main Windows s = main POSIX s"
  by (simp add: main_def py_readlines_def translate_newlines_id)

theorem main_platform_independent_witness:
  "CHR 0x0D \<notin> set ''1 2\<newline>3 5\<newline>'' \<and> main Windows ''1 2\<newline>3 5\<newline>'' = main POSIX ''1 2\<newline>3 5\<newline>''"
proof -
  have h: "CHR 0x0D \<notin> set ''1 2\<newline>3 5\<newline>''" by simp
  from main_platform_independent [OF h] h show ?thesis by simp
qed

text \<open>C29. On any input of fewer than \<open>10 ^ 4300\<close> characters, the only error \<open>main\<close>
  reports is the error \<open>int()\<close> raises on a token of one of the input lines: the count
  never reaches the size at which \<open>str()\<close> raises.\<close>

theorem main_error_source:
  assumes "main plat s = Inl e" and "length s < 10 ^ max_str_digits"
  shows "\<exists>l \<in> set (py_readlines plat s). \<exists>t \<in> set (py_split l). py_int t = Inl e"
proof -
  let ?lines = "py_readlines plat s"
  consider (count) "count_safe_reports ?lines = Inl e"
    | (print) n where "count_safe_reports ?lines = Inr n" "py_str_int (int n) = Inl e"
    using assms(1) by (auto simp: main_def split: sum.splits)
  then show ?thesis
  proof cases
    case count
    then show ?thesis by (rule count_safe_reports_Inl)
  next
    case print
    from print(1) have "n \<le> length (filter nonblank ?lines)"
      by (simp add: count_safe_reports_def count_loop_0 count_spec_Inr_bound)
    also have "\<dots> \<le> length ?lines" by (rule length_filter_le)
    also have "\<dots> \<le> length s" by (rule length_py_readlines)
    finally have "n < 10 ^ max_str_digits" using assms(2) by linarith
    then have "\<bar>int n\<bar> < 10 ^ max_str_digits"
      by (metis abs_of_nat of_nat_less_iff of_nat_numeral of_nat_power)
    with print(2) py_str_int_Inr_iff [of "int n"] show ?thesis by auto
  qed
qed

theorem main_error_source_witness:
  "main POSIX ''1 x\<newline>'' = Inl (ValueError ''x'') \<and> length ''1 x\<newline>'' < 10 ^ max_str_digits
   \<and> (\<exists>l \<in> set (py_readlines POSIX ''1 x\<newline>''). \<exists>t \<in> set (py_split l). py_int t = Inl (ValueError ''x''))"
proof -
  have h1: "main POSIX ''1 x\<newline>'' = Inl (ValueError ''x'')" by code_simp
  have "(10::nat) ^ 1 \<le> 10 ^ max_str_digits"
    using max_str_digits_pos by (intro power_increasing) simp_all
  then have h2: "length ''1 x\<newline>'' < 10 ^ max_str_digits" by simp
  from main_error_source [OF h1 h2] h1 h2 show ?thesis by blast
qed

subsection \<open>Examples: the scenarios of the specification\<close>

text \<open>The scenarios of spec section 8, run through the model on either platform:
  \<open>1 2 3 4\<close> is safe, \<open>1 2 7 8\<close> and \<open>9 7 6 2\<close> are not; blank lines around
  \<open>1 2 3\<close> and \<open>3 2 1\<close> give 2; empty input gives 0.\<close>

theorem spec_scenarios:
  "is_safe [1, 2, 3, 4] \<and> \<not> is_safe [1, 2, 7, 8] \<and> \<not> is_safe [9, 7, 6, 2]
   \<and> main plat ''1 2 3 4\<newline>1 2 7 8\<newline>9 7 6 2\<newline>'' = Inr ''1\<newline>''
   \<and> main plat ''\<newline>1 2 3\<newline>\<newline>3 2 1\<newline>\<newline>'' = Inr ''2\<newline>''
   \<and> main plat '''' = Inr ''0\<newline>''"
  by (induction plat) code_simp+

text \<open>The count depends on the platform when the input holds a lone carriage
  return: on POSIX \<open>1 3\r5 4\<close> is one line, whose tokens form the unsafe report
  \<open>1 3 5 4\<close> (\<open>split()\<close> treats \<open>\r\<close> as whitespace); on Windows the
  \<open>\r\<close> ends a line and the input is two safe reports.\<close>

theorem main_cr_line_break:
  "main POSIX (''1 3'' @ [CHR 0x0D] @ ''5 4'') = Inr ''0\<newline>''
   \<and> main Windows (''1 3'' @ [CHR 0x0D] @ ''5 4'') = Inr ''2\<newline>''"
  by code_simp

text \<open>A malformed token anywhere ends the run with \<open>ValueError\<close> for that token,
  even after safe reports have been counted: no partial count is printed.\<close>

theorem main_bad_token_fatal:
  "main plat ''1 2 3\<newline>4 x 6\<newline>7 8 9\<newline>'' = Inl (ValueError ''x'')"
  by (induction plat) code_simp+

end
